theory Spec2Isabelle
  imports Main "HOL-Library.Char_ord" "HOL-Library.List_Lexorder"
begin

section \<open>Paths, files and the environment\<close>

text \<open>
  Both scripts work on \<^verbatim>\<open>pathlib.Path\<close> values. A path is modelled by the text
  \<^verbatim>\<open>pathlib\<close> prints for it, so that \<^verbatim>\<open>str(p)\<close> is the path itself. \<^verbatim>\<open>Path(s)\<close>
  normalises as \<^verbatim>\<open>pathlib\<close> does: empty and \<^verbatim>\<open>.\<close> components go, and with them every
  doubled or trailing slash; \<^verbatim>\<open>..\<close> stays. (POSIX lets a path begin with exactly two
  slashes; that root is not told apart from a single slash.) The other operations the
  scripts use are \<^verbatim>\<open>p / s\<close>, \<^verbatim>\<open>p.name\<close> and \<^verbatim>\<open>p.parent\<close>.
\<close>

type_synonym path = string

fun split_path :: "string \<Rightarrow> string \<Rightarrow> string list" where
  "split_path cur [] = [cur]"
| "split_path cur (c # cs) =
     (if c = CHR ''/'' then cur # split_path [] cs else split_path (cur @ [c]) cs)"

fun join_path :: "string list \<Rightarrow> string" where
  "join_path [] = []"
| "join_path [x] = x"
| "join_path (x # y # ys) = x @ ''/'' @ join_path (y # ys)"

definition Path :: "string \<Rightarrow> path" where
  "Path s =
     (let parts = filter (\<lambda>c. c \<noteq> [] \<and> c \<noteq> ''.'') (split_path [] s)
      in if s \<noteq> [] \<and> hd s = CHR ''/'' then ''/'' @ join_path parts
         else if parts = [] then ''.''
         else join_path parts)"

text \<open>\<^verbatim>\<open>Path(a) / b\<close>: an absolute \<open>b\<close> replaces \<open>a\<close>.\<close>

definition path_join :: "path \<Rightarrow> string \<Rightarrow> path" where
  "path_join a b =
     (if b \<noteq> [] \<and> hd b = CHR ''/'' then Path b else Path (a @ ''/'' @ b))"

definition path_name :: "path \<Rightarrow> string" where
  "path_name p =
     (if p = ''.'' then [] else rev (takeWhile (\<lambda>c. c \<noteq> CHR ''/'') (rev p)))"

definition path_parent :: "path \<Rightarrow> path" where
  "path_parent p =
     (if CHR ''/'' \<notin> set p then ''.''
      else (let d = rev (tl (dropWhile (\<lambda>c. c \<noteq> CHR ''/'') (rev p)))
            in if d = [] then ''/'' else d))"

text \<open>
  \<open>path_prefixes acc p\<close> lists the ancestors of a path from the root down, the path itself
  last: what \<^verbatim>\<open>mkdir(parents=True)\<close> walks through.
\<close>

fun path_prefixes :: "string \<Rightarrow> string \<Rightarrow> path list" where
  "path_prefixes acc [] = [acc]"
| "path_prefixes acc (c # cs) =
     (if c = CHR ''/''
      then (if acc = [] then [''/''] else [acc]) @ path_prefixes (acc @ [c]) cs
      else path_prefixes (acc @ [c]) cs)"

subsection \<open>JSON values\<close>

text \<open>
  What \<^verbatim>\<open>json.load\<close> returns and \<^verbatim>\<open>json.dump\<close> accepts. A dict is an association
  list in insertion order, with distinct keys. Floats are not distinguished from integers:
  every operation the scripts apply to a number fails in the same way on both.
\<close>

datatype json =
    JNull
  | JBool bool
  | JNum int
  | JStr string
  | JList "json list"
  | JDict "(string \<times> json) list"

text \<open>
  The content of a file is classified by what \<^verbatim>\<open>json.load\<close> does with it: \<open>Json v\<close> is a
  JSON text that decodes to \<open>v\<close> (and what \<^verbatim>\<open>json.dump\<close> writes for \<open>v\<close>); \<open>Bytes s\<close> is
  any other content, on which \<^verbatim>\<open>json.load\<close> raises \<^verbatim>\<open>JSONDecodeError\<close>. The text of the
  serialisation itself belongs to the \<^verbatim>\<open>json\<close> library and is not modelled.
\<close>

datatype content = Bytes string | Json json

datatype node = File content | Symlink path | Dir

subsection \<open>Time\<close>

record datetime =
  year :: nat
  month :: nat
  day :: nat
  hour :: nat
  minute :: nat
  second :: nat
  microsecond :: nat

definition digit_char :: "nat \<Rightarrow> char" where
  "digit_char n = ''0123456789'' ! (n mod 10)"

fun decimal :: "nat \<Rightarrow> string" where
  "decimal n = (if n < 10 then [digit_char n] else decimal (n div 10) @ [digit_char n])"

declare decimal.simps [simp del]

definition zero_pad :: "nat \<Rightarrow> nat \<Rightarrow> string" where
  "zero_pad k n = replicate (k - length (decimal n)) CHR ''0'' @ decimal n"

text \<open>\<^verbatim>\<open>strftime('%H%M%S')\<close>: the time of day to the second.\<close>

definition strftime_HMS :: "datetime \<Rightarrow> string" where
  "strftime_HMS t = zero_pad 2 (hour t) @ zero_pad 2 (minute t) @ zero_pad 2 (second t)"

text \<open>\<^verbatim>\<open>strftime('%Y%m%d_%H%M%S')\<close>, the name of the session's backup directory.\<close>

definition strftime_session :: "datetime \<Rightarrow> string" where
  "strftime_session t =
     zero_pad 4 (year t) @ zero_pad 2 (month t) @ zero_pad 2 (day t) @ ''_'' @ strftime_HMS t"

text \<open>\<^verbatim>\<open>isoformat()\<close>: the microseconds are printed unless they are zero.\<close>

definition isoformat :: "datetime \<Rightarrow> string" where
  "isoformat t =
     zero_pad 4 (year t) @ ''-'' @ zero_pad 2 (month t) @ ''-'' @ zero_pad 2 (day t) @ ''T'' @
     zero_pad 2 (hour t) @ '':'' @ zero_pad 2 (minute t) @ '':'' @ zero_pad 2 (second t) @
     (if microsecond t = 0 then [] else ''.'' @ zero_pad 6 (microsecond t))"

subsection \<open>The world outside the process\<close>

text \<open>
  The file tree maps a path to its node. The remaining fields are the environment's
  answers: what \<^verbatim>\<open>os.access(dir, os.W_OK)\<close> reports, the device \<^verbatim>\<open>stat\<close> reports
  (\<open>None\<close>: \<^verbatim>\<open>stat\<close> raises \<^verbatim>\<open>OSError\<close>), which system calls the operating system
  refuses (permission denied, disk full, ...), and the successive readings of the clock.
  A refused call raises \<^verbatim>\<open>OSError\<close> and leaves the tree as it was.
\<close>

record world =
  fs :: "path \<rightharpoonup> node"
  writable :: "path \<Rightarrow> bool"
  device :: "path \<rightharpoonup> nat"
  copy_fails :: "path \<Rightarrow> path \<Rightarrow> bool"
  unlink_fails :: "path \<Rightarrow> bool"
  link_fails :: "path \<Rightarrow> bool"
  mkdir_fails :: "path \<Rightarrow> bool"
  open_fails :: "path \<Rightarrow> bool"
  clock :: "nat \<Rightarrow> datetime"
  reads :: nat

text \<open>\<^verbatim>\<open>datetime.now()\<close>: the next reading of the clock.\<close>

definition now :: "world \<Rightarrow> datetime \<times> world" where
  "now w = (clock w (reads w), w\<lparr>reads := Suc (reads w)\<rparr>)"

text \<open>
  Where the link at \<open>p\<close> with target text \<open>q\<close> points: an absolute target as it is
  written, a relative one from the directory that holds the link. (A \<^verbatim>\<open>..\<close> in the
  target is kept as text, not walked through the tree.)
\<close>

definition link_target :: "path \<Rightarrow> path \<Rightarrow> path" where
  "link_target p q = (if q \<noteq> [] \<and> hd q = CHR ''/'' then q else path_join (path_parent p) q)"

text \<open>
  Following symbolic links, at most \<open>n\<close> of them (the operating system gives up after 40).
\<close>

fun resolve :: "nat \<Rightarrow> (path \<rightharpoonup> node) \<Rightarrow> path \<Rightarrow> path option" where
  "resolve n t p =
     (case t p of
        None \<Rightarrow> None
      | Some (Symlink q) \<Rightarrow>
          (case n of 0 \<Rightarrow> None | Suc m \<Rightarrow> resolve m t (link_target p q))
      | Some _ \<Rightarrow> Some p)"

declare resolve.simps [simp del]

text \<open>
  Where a write to \<open>p\<close> lands: links are followed, the final path is a file or free;
  a directory cannot be opened for writing.
\<close>

fun write_target :: "nat \<Rightarrow> (path \<rightharpoonup> node) \<Rightarrow> path \<Rightarrow> path option" where
  "write_target n t p =
     (case t p of
        None \<Rightarrow> Some p
      | Some (File _) \<Rightarrow> Some p
      | Some Dir \<Rightarrow> None
      | Some (Symlink q) \<Rightarrow>
          (case n of 0 \<Rightarrow> None | Suc m \<Rightarrow> write_target m t (link_target p q)))"

declare write_target.simps [simp del]

text \<open>\<^verbatim>\<open>Path.exists()\<close> follows links: a dangling link does not exist.\<close>

definition exists :: "world \<Rightarrow> path \<Rightarrow> bool" where
  "exists w p = (resolve 40 (fs w) p \<noteq> None)"

definition is_symlink :: "world \<Rightarrow> path \<Rightarrow> bool" where
  "is_symlink w p = (case fs w p of Some (Symlink _) \<Rightarrow> True | _ \<Rightarrow> False)"

definition is_dir :: "world \<Rightarrow> path \<Rightarrow> bool" where
  "is_dir w p =
     (case resolve 40 (fs w) p of None \<Rightarrow> False | Some q \<Rightarrow> fs w q = Some Dir)"

definition read_file :: "world \<Rightarrow> path \<Rightarrow> content option" where
  "read_file w p =
     (case resolve 40 (fs w) p of
        None \<Rightarrow> None
      | Some q \<Rightarrow> (case fs w q of Some (File c) \<Rightarrow> Some c | _ \<Rightarrow> None))"

text \<open>\<^verbatim>\<open>Path.stat().st_dev\<close>; \<open>None\<close> when \<^verbatim>\<open>stat\<close> raises.\<close>

definition stat_dev :: "world \<Rightarrow> path \<Rightarrow> nat option" where
  "stat_dev w p = (case resolve 40 (fs w) p of None \<Rightarrow> None | Some q \<Rightarrow> device w q)"



text \<open>
  Opening a file for appending, as the log handler does: the file is made if it is not
  there. What is then appended to it is not tracked: the content of the log stays as it
  is in this model, and no statement below says what the log file holds.
\<close>

definition open_append :: "path \<Rightarrow> world \<Rightarrow> world option" where
  "open_append p w =
     (if open_fails w p then None
      else case write_target 40 (fs w) p of
        None \<Rightarrow> None
      | Some t \<Rightarrow>
          if fs w t \<noteq> None then Some w
          else if is_dir w (path_parent t) then Some (w\<lparr>fs := (fs w)(t \<mapsto> File (Bytes []))\<rparr>)
          else None)"

text \<open>
  \<^verbatim>\<open>shutil.copy2(src, dst)\<close>: the content of \<open>src\<close> (through links) is written to \<open>dst\<close>,
  or into \<open>dst\<close> under the name of \<open>src\<close> when \<open>dst\<close> is a directory; copying a file onto
  itself raises.
\<close>

definition copy2 :: "path \<Rightarrow> path \<Rightarrow> world \<Rightarrow> world option" where
  "copy2 src dst w =
     (if copy_fails w src dst then None
      else case read_file w src of
        None \<Rightarrow> None
      | Some c \<Rightarrow>
          (let dst' = (if is_dir w dst then path_join dst (path_name src) else dst)
           in case write_target 40 (fs w) dst' of
                None \<Rightarrow> None
              | Some t \<Rightarrow>
                  if resolve 40 (fs w) src = Some t then None
                  else if is_dir w (path_parent t)
                       then Some (w\<lparr>fs := (fs w)(t \<mapsto> File c)\<rparr>)
                       else None))"

text \<open>\<^verbatim>\<open>Path.unlink()\<close> removes the entry itself, link or file, never a directory.\<close>

definition unlink :: "path \<Rightarrow> world \<Rightarrow> world option" where
  "unlink p w =
     (if unlink_fails w p then None
      else case fs w p of
        None \<Rightarrow> None
      | Some Dir \<Rightarrow> None
      | Some _ \<Rightarrow> Some (w\<lparr>fs := (fs w)(p := None)\<rparr>))"

text \<open>\<^verbatim>\<open>target.symlink_to(source)\<close>: the entry \<open>target\<close> must be free.\<close>

definition symlink_to :: "path \<Rightarrow> path \<Rightarrow> world \<Rightarrow> world option" where
  "symlink_to target source w =
     (if link_fails w target then None
      else if fs w target \<noteq> None then None
      else if is_dir w (path_parent target)
           then Some (w\<lparr>fs := (fs w)(target \<mapsto> Symlink source)\<rparr>)
           else None)"

text \<open>
  \<^verbatim>\<open>target.hardlink_to(source)\<close>: a second entry for the source's file, on the same device
  only. The entry holds the file's content: that the two names then share one file is not
  modelled.
\<close>

definition hardlink_to :: "path \<Rightarrow> path \<Rightarrow> world \<Rightarrow> world option" where
  "hardlink_to target source w =
     (if link_fails w target then None
      else if fs w target \<noteq> None then None
      else if \<not> is_dir w (path_parent target) then None
      else if device w source \<noteq> stat_dev w (path_parent target) then None
      else case fs w source of
        None \<Rightarrow> None
      | Some Dir \<Rightarrow> None
      | Some n \<Rightarrow> Some (w\<lparr>fs := (fs w)(target \<mapsto> n)\<rparr>))"

text \<open>\<^verbatim>\<open>p.mkdir(parents=True, exist_ok=True)\<close>.\<close>

definition mkdir_parents :: "path \<Rightarrow> world \<Rightarrow> world option" where
  "mkdir_parents p w =
     (if mkdir_fails w p then None
      else if list_all (\<lambda>a. fs w a = None \<or> is_dir w a) (path_prefixes [] p)
           then Some (w\<lparr>fs := (\<lambda>q. if q \<in> set (path_prefixes [] p) \<and> fs w q = None
                                    then Some Dir else fs w q)\<rparr>)
           else None)"

section \<open>The executor (duplicate_executor.py)\<close>

text \<open>
  Of logging, the model has the making of the handling directory and the opening of the
  log file; the lines every step appends to the log are not tracked, and no log call can
  fail. The parser \<^verbatim>\<open>parse_csv_file\<close> is outside the model: \<open>execute\<close> takes the rows it
  returned.
\<close>

datatype ActionType =
    SOFTLINK_ORIGINAL
  | SOFTLINK_DUPLICATE
  | HARDLINK_ORIGINAL
  | HARDLINK_DUPLICATE
  | DELETE_ORIGINAL
  | DELETE_DUPLICATE
  | DELETE_BOTH

text \<open>\<^verbatim>\<open>ActionType(entry.action)\<close>; \<open>None\<close> is the \<^verbatim>\<open>ValueError\<close>.\<close>

definition ActionType_of :: "string \<Rightarrow> ActionType option" where
  "ActionType_of s =
     (if s = ''SOFTLINK_ORIGINAL'' then Some SOFTLINK_ORIGINAL
      else if s = ''SOFTLINK_DUPLICATE'' then Some SOFTLINK_DUPLICATE
      else if s = ''HARDLINK_ORIGINAL'' then Some HARDLINK_ORIGINAL
      else if s = ''HARDLINK_DUPLICATE'' then Some HARDLINK_DUPLICATE
      else if s = ''DELETE_ORIGINAL'' then Some DELETE_ORIGINAL
      else if s = ''DELETE_DUPLICATE'' then Some DELETE_DUPLICATE
      else if s = ''DELETE_BOTH'' then Some DELETE_BOTH
      else None)"

datatype ValidationResult = SUCCESS | ERROR | CROSS_DEVICE

record DuplicateEntry =
  row_num :: nat
  original_folder :: string
  original_file :: string
  duplicate_folder :: string
  duplicate_file :: string
  size_str :: string
  hash_value :: string
  keep_orig :: string
  keep_dup :: string
  action :: string
  notes_str :: string

text \<open>The properties \<^verbatim>\<open>original_path\<close> and \<^verbatim>\<open>duplicate_path\<close> of a row.\<close>

definition entry_original_path :: "DuplicateEntry \<Rightarrow> path" where
  "entry_original_path e = path_join (Path (original_folder e)) (original_file e)"

definition entry_duplicate_path :: "DuplicateEntry \<Rightarrow> path" where
  "entry_duplicate_path e = path_join (Path (duplicate_folder e)) (duplicate_file e)"

record OperationStats =
  total_rows :: nat
  processed_rows :: nat
  softlinks_created :: nat
  hardlinks_created :: nat
  files_deleted :: nat
  errors :: nat
  skipped :: nat

record RollbackEntry =
  timestamp :: string
  operation_type :: string
  original_path :: string
  target_path :: string
  backup_path :: string
  status :: string

record executor =
  dry_run :: bool
  base_dir :: path
  backup_dir :: path
  log_file :: path
  rollback_file :: path
  rollback_entries :: "RollbackEntry list"
  stats :: OperationStats

text \<open>
  \<^verbatim>\<open>_setup_logging\<close>: the handling directory is made with its parents and the log file is
  opened for appending, in a dry run as in any other. An \<^verbatim>\<open>OSError\<close> is not caught.
\<close>

definition setup_logging :: "executor \<Rightarrow> world \<Rightarrow> world option" where
  "setup_logging ex w =
     (case mkdir_parents (base_dir ex) w of
        None \<Rightarrow> None
      | Some w1 \<Rightarrow> open_append (log_file ex) w1)"

text \<open>
  \<^verbatim>\<open>_setup_directories\<close>: the session's backup directory is made unless the run is a dry
  run. An \<^verbatim>\<open>OSError\<close> of \<^verbatim>\<open>mkdir\<close> is not caught (\<open>None\<close>).
\<close>

definition setup_directories :: "executor \<Rightarrow> world \<Rightarrow> world option" where
  "setup_directories ex w =
     (if \<not> dry_run ex then mkdir_parents (backup_dir ex) w else Some w)"

text \<open>
  \<^verbatim>\<open>DuplicateFileExecutor(dry_run)\<close>: the paths of the session under the home directory,
  then the two set-up steps. \<open>None\<close> is an exception that leaves the constructor.
\<close>

definition new_executor :: "path \<Rightarrow> bool \<Rightarrow> world \<Rightarrow> (executor \<times> world) option" where
  "new_executor home dry w =
     (case now w of (t, w1) \<Rightarrow>
        (let base = path_join (path_join (path_join home ''tmp'') ''2delete'')
                      ''duplicatesHandling'';
             ex = \<lparr>dry_run = dry, base_dir = base,
                   backup_dir = path_join (path_join base ''duplicate_backups'')
                                  (strftime_session t),
                   log_file = path_join base ''duplicate_actions.log'',
                   rollback_file = path_join base ''duplicate_rollback.json'',
                   rollback_entries = [],
                   stats = \<lparr>total_rows = 0, processed_rows = 0, softlinks_created = 0,
                            hardlinks_created = 0, files_deleted = 0, errors = 0,
                            skipped = 0\<rparr>\<rparr>
         in case setup_logging ex w1 of
              None \<Rightarrow> None
            | Some w2 \<Rightarrow>
                (case setup_directories ex w2 of
                   None \<Rightarrow> None
                 | Some w3 \<Rightarrow> Some (ex, w3))))"


text \<open>
  \<^verbatim>\<open>validate_file_paths\<close>. The existence and permission probes do not raise here, so
  the outer \<^verbatim>\<open>except OSError\<close> has nothing to catch; the two \<^verbatim>\<open>stat\<close> calls of the
  hardlink check can raise, and their \<^verbatim>\<open>except\<close> gives \<open>ERROR\<close>.
\<close>

definition validate_file_paths :: "DuplicateEntry \<Rightarrow> ActionType \<Rightarrow> world \<Rightarrow> ValidationResult" where
  "validate_file_paths entry a w =
     (let orig_path = entry_original_path entry; dup_path = entry_duplicate_path entry in
      if a \<in> set [DELETE_ORIGINAL, SOFTLINK_ORIGINAL, HARDLINK_ORIGINAL]
          \<and> \<not> exists w orig_path then ERROR
      else if a \<in> set [DELETE_ORIGINAL, SOFTLINK_ORIGINAL, HARDLINK_ORIGINAL]
          \<and> \<not> exists w dup_path then ERROR
      else if a \<in> set [DELETE_DUPLICATE, SOFTLINK_DUPLICATE, HARDLINK_DUPLICATE]
          \<and> \<not> exists w orig_path then ERROR
      else if a \<in> set [DELETE_DUPLICATE, SOFTLINK_DUPLICATE, HARDLINK_DUPLICATE]
          \<and> \<not> exists w dup_path then ERROR
      else if a = DELETE_BOTH \<and> \<not> exists w orig_path \<and> \<not> exists w dup_path then ERROR
      else if exists w orig_path \<and> \<not> writable w (path_parent orig_path) then ERROR
      else if exists w dup_path \<and> \<not> writable w (path_parent dup_path) then ERROR
      else if a \<in> set [HARDLINK_ORIGINAL, HARDLINK_DUPLICATE] then
        (case stat_dev w orig_path of
           None \<Rightarrow> ERROR
         | Some orig_dev \<Rightarrow>
             (case stat_dev w (path_parent dup_path) of
                None \<Rightarrow> ERROR
              | Some dup_dev \<Rightarrow> if orig_dev = dup_dev then SUCCESS else CROSS_DEVICE))
      else SUCCESS)"

definition create_backup :: "executor \<Rightarrow> path \<Rightarrow> string \<Rightarrow> world \<Rightarrow> bool \<times> world" where
  "create_backup ex file_path backup_name w =
     (if dry_run ex then (True, w)
      else if \<not> exists w file_path then (True, w)
      else case copy2 file_path (path_join (backup_dir ex) backup_name) w of
             Some w' \<Rightarrow> (True, w')
           | None \<Rightarrow> (False, w))"

text \<open>
  The \<^verbatim>\<open>except OSError\<close> branch of the two link operations: the target is copied back
  from the backup when there is one; a failure of that copy is only logged.
\<close>

definition restore_target :: "executor \<Rightarrow> string \<Rightarrow> path \<Rightarrow> world \<Rightarrow> world" where
  "restore_target ex backup_name target_file w =
     (let backup = path_join (backup_dir ex) backup_name in
      if exists w backup
      then (case copy2 backup target_file w of Some w' \<Rightarrow> w' | None \<Rightarrow> w)
      else w)"

definition execute_soft_link ::
  "path \<Rightarrow> path \<Rightarrow> executor \<Rightarrow> world \<Rightarrow> bool \<times> executor \<times> world" where
  "execute_soft_link source_file target_file ex w =
     (if dry_run ex then (True, ex, w)
      else
        (case now w of (t, w1) \<Rightarrow>
          (let backup_name = ''softlink_'' @ path_name target_file @ ''_'' @ strftime_HMS t in
           case create_backup ex target_file backup_name w1 of
             (False, w2) \<Rightarrow> (False, ex, w2)
           | (True, w2) \<Rightarrow>
               (case (if exists w2 target_file then unlink target_file w2 else Some w2) of
                  None \<Rightarrow> (False, ex, restore_target ex backup_name target_file w2)
                | Some w3 \<Rightarrow>
                    (case symlink_to target_file source_file w3 of
                       None \<Rightarrow> (False, ex, restore_target ex backup_name target_file w3)
                     | Some w4 \<Rightarrow>
                         (case now w4 of (t', w5) \<Rightarrow>
                           (True,
                            ex\<lparr>rollback_entries := rollback_entries ex @
                                 [\<lparr>timestamp = isoformat t', operation_type = ''softlink'',
                                   original_path = source_file, target_path = target_file,
                                   backup_path = path_join (backup_dir ex) backup_name,
                                   status = ''active''\<rparr>],
                               stats := (stats ex)\<lparr>softlinks_created :=
                                 softlinks_created (stats ex) + 1\<rparr>\<rparr>,
                            w5)))))))"

definition execute_hard_link ::
  "path \<Rightarrow> path \<Rightarrow> executor \<Rightarrow> world \<Rightarrow> bool \<times> executor \<times> world" where
  "execute_hard_link source_file target_file ex w =
     (if dry_run ex then (True, ex, w)
      else
        (case now w of (t, w1) \<Rightarrow>
          (let backup_name = ''hardlink_'' @ path_name target_file @ ''_'' @ strftime_HMS t in
           case create_backup ex target_file backup_name w1 of
             (False, w2) \<Rightarrow> (False, ex, w2)
           | (True, w2) \<Rightarrow>
               (case (if exists w2 target_file then unlink target_file w2 else Some w2) of
                  None \<Rightarrow> (False, ex, restore_target ex backup_name target_file w2)
                | Some w3 \<Rightarrow>
                    (case hardlink_to target_file source_file w3 of
                       None \<Rightarrow> (False, ex, restore_target ex backup_name target_file w3)
                     | Some w4 \<Rightarrow>
                         (case now w4 of (t', w5) \<Rightarrow>
                           (True,
                            ex\<lparr>rollback_entries := rollback_entries ex @
                                 [\<lparr>timestamp = isoformat t', operation_type = ''hardlink'',
                                   original_path = source_file, target_path = target_file,
                                   backup_path = path_join (backup_dir ex) backup_name,
                                   status = ''active''\<rparr>],
                               stats := (stats ex)\<lparr>hardlinks_created :=
                                 hardlinks_created (stats ex) + 1\<rparr>\<rparr>,
                            w5)))))))"

definition execute_delete :: "path \<Rightarrow> executor \<Rightarrow> world \<Rightarrow> bool \<times> executor \<times> world" where
  "execute_delete file_path ex w =
     (if dry_run ex then (True, ex, w)
      else if \<not> exists w file_path then (True, ex, w)
      else
        (case now w of (t, w1) \<Rightarrow>
          (let backup_name = ''deleted_'' @ path_name file_path @ ''_'' @ strftime_HMS t in
           case create_backup ex file_path backup_name w1 of
             (False, w2) \<Rightarrow> (False, ex, w2)
           | (True, w2) \<Rightarrow>
               (case unlink file_path w2 of
                  None \<Rightarrow> (False, ex, w2)
                | Some w3 \<Rightarrow>
                    (case now w3 of (t', w4) \<Rightarrow>
                      (True,
                       ex\<lparr>rollback_entries := rollback_entries ex @
                            [\<lparr>timestamp = isoformat t', operation_type = ''delete'',
                              original_path = file_path, target_path = [],
                              backup_path = path_join (backup_dir ex) backup_name,
                              status = ''active''\<rparr>],
                          stats := (stats ex)\<lparr>files_deleted := files_deleted (stats ex) + 1\<rparr>\<rparr>,
                       w4))))))"

text \<open>The tail of \<^verbatim>\<open>process_action\<close>: one row counts as processed or as an error.\<close>

definition tally :: "bool \<times> executor \<times> world \<Rightarrow> bool \<times> executor \<times> world" where
  "tally r =
     (case r of (success, ex, w) \<Rightarrow>
        (success,
         (if success
          then ex\<lparr>stats := (stats ex)\<lparr>processed_rows := processed_rows (stats ex) + 1\<rparr>\<rparr>
          else ex\<lparr>stats := (stats ex)\<lparr>errors := errors (stats ex) + 1\<rparr>\<rparr>),
         w))"

definition process_action :: "DuplicateEntry \<Rightarrow> executor \<Rightarrow> world \<Rightarrow> bool \<times> executor \<times> world" where
  "process_action entry ex w =
     (case ActionType_of (action entry) of
        None \<Rightarrow>
          (if action entry \<in> set [[], ''REVIEW_NEEDED'', ''Action'']
           then (True, ex\<lparr>stats := (stats ex)\<lparr>skipped := skipped (stats ex) + 1\<rparr>\<rparr>, w)
           else (False, ex\<lparr>stats := (stats ex)\<lparr>skipped := skipped (stats ex) + 1\<rparr>\<rparr>, w))
      | Some a \<Rightarrow>
          (case validate_file_paths entry a w of
             ERROR \<Rightarrow> (False, ex\<lparr>stats := (stats ex)\<lparr>errors := errors (stats ex) + 1\<rparr>\<rparr>, w)
           | CROSS_DEVICE \<Rightarrow>
               (False, ex\<lparr>stats := (stats ex)\<lparr>skipped := skipped (stats ex) + 1\<rparr>\<rparr>, w)
           | SUCCESS \<Rightarrow>
               (let orig_path = entry_original_path entry;
                    dup_path = entry_duplicate_path entry
                in tally
                  (case a of
                     SOFTLINK_ORIGINAL \<Rightarrow> execute_soft_link dup_path orig_path ex w
                   | SOFTLINK_DUPLICATE \<Rightarrow> execute_soft_link orig_path dup_path ex w
                   | HARDLINK_ORIGINAL \<Rightarrow> execute_hard_link dup_path orig_path ex w
                   | HARDLINK_DUPLICATE \<Rightarrow> execute_hard_link orig_path dup_path ex w
                   | DELETE_ORIGINAL \<Rightarrow> execute_delete orig_path ex w
                   | DELETE_DUPLICATE \<Rightarrow> execute_delete dup_path ex w
                   | DELETE_BOTH \<Rightarrow>
                       (case execute_delete orig_path ex w of
                          (success1, ex1, w1) \<Rightarrow>
                            (case execute_delete dup_path ex1 w1 of
                               (success2, ex2, w2) \<Rightarrow> (success1 \<and> success2, ex2, w2)))))))"






section \<open>The rollback utility (rollback_duplicates.py)\<close>

text \<open>
  The ledger is read back as plain JSON, so the operations Python applies to it can raise:
  an exception no \<^verbatim>\<open>try\<close> block catches ends the run with a traceback.
\<close>

datatype pyerror = KeyError | TypeError | AttributeError

text \<open>\<^verbatim>\<open>v.get(k, default)\<close>: only a dict has the method.\<close>

definition dict_get :: "json \<Rightarrow> string \<Rightarrow> json \<Rightarrow> pyerror + json" where
  "dict_get v k dflt =
     (case v of
        JDict kvs \<Rightarrow> Inr (case map_of kvs k of Some x \<Rightarrow> x | None \<Rightarrow> dflt)
      | _ \<Rightarrow> Inl AttributeError)"

definition is_dict :: "json \<Rightarrow> bool" where
  "is_dict v = (case v of JDict kvs \<Rightarrow> True | _ \<Rightarrow> False)"

text \<open>\<^verbatim>\<open>v[k]\<close> for a string \<open>k\<close>.\<close>

definition subscript :: "json \<Rightarrow> string \<Rightarrow> pyerror + json" where
  "subscript v k =
     (case v of
        JDict kvs \<Rightarrow> (case map_of kvs k of Some x \<Rightarrow> Inr x | None \<Rightarrow> Inl KeyError)
      | _ \<Rightarrow> Inl TypeError)"

text \<open>\<^verbatim>\<open>Path(v[k])\<close>: the constructor takes a string.\<close>

definition Path_at :: "json \<Rightarrow> string \<Rightarrow> pyerror + path" where
  "Path_at v k =
     (case subscript v k of
        Inl e \<Rightarrow> Inl e
      | Inr (JStr s) \<Rightarrow> Inr (Path s)
      | Inr _ \<Rightarrow> Inl TypeError)"

fun starts_with :: "string \<Rightarrow> string \<Rightarrow> bool" where
  "starts_with [] s = True"
| "starts_with (c # cs) [] = False"
| "starts_with (c # cs) (d # ds) = (c = d \<and> starts_with cs ds)"

fun contains_str :: "string \<Rightarrow> string \<Rightarrow> bool" where
  "contains_str k [] = (k = [])"
| "contains_str k (c # cs) = (starts_with k (c # cs) \<or> contains_str k cs)"

text \<open>
  \<^verbatim>\<open>k in v\<close>: a key of a dict, an element of a list, a substring of a string; \<open>None\<close> is
  the \<^verbatim>\<open>TypeError\<close> of the other values.
\<close>

definition py_in :: "string \<Rightarrow> json \<Rightarrow> bool option" where
  "py_in k v =
     (case v of
        JDict kvs \<Rightarrow> Some (k \<in> set (map fst kvs))
      | JList xs \<Rightarrow> Some (JStr k \<in> set xs)
      | JStr s \<Rightarrow> Some (contains_str k s)
      | _ \<Rightarrow> None)"

text \<open>\<^verbatim>\<open>len(v)\<close>; \<open>None\<close> is the \<^verbatim>\<open>TypeError\<close>.\<close>

definition py_len :: "json \<Rightarrow> nat option" where
  "py_len v =
     (case v of
        JList xs \<Rightarrow> Some (length xs)
      | JStr s \<Rightarrow> Some (length s)
      | JDict kvs \<Rightarrow> Some (length kvs)
      | _ \<Rightarrow> None)"

text \<open>The elements a \<^verbatim>\<open>for\<close> loop or \<^verbatim>\<open>reversed\<close> takes from a value.\<close>

definition py_iter :: "json \<Rightarrow> pyerror + json list" where
  "py_iter v =
     (case v of
        JList xs \<Rightarrow> Inr xs
      | JStr s \<Rightarrow> Inr (map (\<lambda>c. JStr [c]) s)
      | JDict kvs \<Rightarrow> Inr (map (\<lambda>kv. JStr (fst kv)) kvs)
      | _ \<Rightarrow> Inl TypeError)"

definition truthy :: "json \<Rightarrow> bool" where
  "truthy v =
     (case v of
        JNull \<Rightarrow> False
      | JBool b \<Rightarrow> b
      | JNum n \<Rightarrow> n \<noteq> 0
      | JStr s \<Rightarrow> s \<noteq> []
      | JList xs \<Rightarrow> xs \<noteq> []
      | JDict kvs \<Rightarrow> kvs \<noteq> [])"

record RollbackStats =
  total_operations :: nat
  successful_rollbacks :: nat
  failed_rollbacks :: nat
  skipped_operations :: nat

text \<open>
  The rollback object. \<open>attempted\<close> is a history variable: the operations handed to
  \<^verbatim>\<open>rollback_operation\<close>, in the order of the calls.
\<close>

record DuplicateRollback =
  rb_dry_run :: bool
  rb_stats :: RollbackStats
  attempted :: "json list"

text \<open>\<^verbatim>\<open>DuplicateRollback(dry_run)\<close>: a fresh object, all counters at zero.\<close>

definition new_rollback :: "bool \<Rightarrow> DuplicateRollback" where
  "new_rollback dry =
     \<lparr>rb_dry_run = dry,
      rb_stats = \<lparr>total_operations = 0, successful_rollbacks = 0, failed_rollbacks = 0,
                  skipped_operations = 0\<rparr>,
      attempted = []\<rparr>"

text \<open>
  The last branch of \<^verbatim>\<open>rollback_operation\<close> is taken by an operation whose type is none
  of the three known ones.
\<close>

definition unrecognized :: "json \<Rightarrow> bool" where
  "unrecognized operation =
     (case dict_get operation ''operation_type'' (JStr []) of
        Inl e \<Rightarrow> False
      | Inr ty \<Rightarrow> ty \<notin> set [JStr ''delete'', JStr ''softlink'', JStr ''hardlink''])"

text \<open>
  Every exception inside the \<^verbatim>\<open>try\<close> of \<^verbatim>\<open>load_rollback_data\<close> is caught and gives
  \<open>None\<close>.
\<close>

definition load_rollback_data :: "world \<Rightarrow> path \<Rightarrow> json option" where
  "load_rollback_data w file =
     (if \<not> exists w file then None
      else if open_fails w file then None
      else case read_file w file of
        None \<Rightarrow> None
      | Some (Bytes _) \<Rightarrow> None
      | Some (Json data) \<Rightarrow>
          (if py_in ''timestamp'' data \<noteq> Some True then None
           else if py_in ''operations'' data \<noteq> Some True then None
           else case subscript data ''operations'' of
             Inl _ \<Rightarrow> None
           | Inr operations \<Rightarrow>
               (case py_len operations of
                  None \<Rightarrow> None
                | Some _ \<Rightarrow>
                    (case subscript data ''timestamp'' of
                       Inl _ \<Rightarrow> None
                     | Inr _ \<Rightarrow>
                         (case dict_get data ''dry_run'' JNull of
                            Inl _ \<Rightarrow> None
                          | Inr _ \<Rightarrow> Some data)))))"

definition rollback_delete_operation ::
  "DuplicateRollback \<Rightarrow> json \<Rightarrow> world \<Rightarrow> pyerror + (bool \<times> world)" where
  "rollback_delete_operation rb operation w =
     (case Path_at operation ''original_path'' of
        Inl e \<Rightarrow> Inl e
      | Inr original \<Rightarrow>
          (case Path_at operation ''backup_path'' of
             Inl e \<Rightarrow> Inl e
           | Inr backup \<Rightarrow>
               Inr (if rb_dry_run rb then (True, w)
                    else if \<not> exists w backup then (False, w)
                    else if exists w original then (False, w)
                    else case mkdir_parents (path_parent original) w of
                      None \<Rightarrow> (False, w)
                    | Some w1 \<Rightarrow>
                        (case copy2 backup original w1 of
                           None \<Rightarrow> (False, w1)
                         | Some w2 \<Rightarrow> (True, w2)))))"

definition rollback_link_operation ::
  "DuplicateRollback \<Rightarrow> json \<Rightarrow> world \<Rightarrow> pyerror + (bool \<times> world)" where
  "rollback_link_operation rb operation w =
     (case Path_at operation ''target_path'' of
        Inl e \<Rightarrow> Inl e
      | Inr target \<Rightarrow>
          (case Path_at operation ''backup_path'' of
             Inl e \<Rightarrow> Inl e
           | Inr backup \<Rightarrow>
               (case subscript operation ''operation_type'' of
                  Inl e \<Rightarrow> Inl e
                | Inr _ \<Rightarrow>
                    Inr (if rb_dry_run rb then (True, w)
                         else case (if exists w target \<or> is_symlink w target
                                    then unlink target w else Some w) of
                           None \<Rightarrow> (False, w)
                         | Some w1 \<Rightarrow>
                             (if exists w1 backup
                              then (case copy2 backup target w1 of
                                      None \<Rightarrow> (False, w1)
                                    | Some w2 \<Rightarrow> (True, w2))
                              else (False, w1))))))"

definition rollback_operation ::
  "DuplicateRollback \<Rightarrow> json \<Rightarrow> world \<Rightarrow> pyerror + (bool \<times> DuplicateRollback \<times> world)" where
  "rollback_operation rb operation w =
     (case dict_get operation ''operation_type'' (JStr []) of
        Inl e \<Rightarrow> Inl e
      | Inr ty \<Rightarrow>
          if ty = JStr ''delete'' then
            (case rollback_delete_operation rb operation w of
               Inl e \<Rightarrow> Inl e
             | Inr (ok, w') \<Rightarrow> Inr (ok, rb, w'))
          else if ty \<in> set [JStr ''softlink'', JStr ''hardlink''] then
            (case rollback_link_operation rb operation w of
               Inl e \<Rightarrow> Inl e
             | Inr (ok, w') \<Rightarrow> Inr (ok, rb, w'))
          else
            Inr (False,
                 rb\<lparr>rb_stats := (rb_stats rb)\<lparr>skipped_operations :=
                      skipped_operations (rb_stats rb) + 1\<rparr>\<rparr>,
                 w))"

text \<open>A list comprehension whose condition can raise: the first exception ends it.\<close>

fun filter_ops :: "(json \<Rightarrow> pyerror + bool) \<Rightarrow> json list \<Rightarrow> pyerror + json list" where
  "filter_ops c [] = Inr []"
| "filter_ops c (x # xs) =
     (case c x of
        Inl e \<Rightarrow> Inl e
      | Inr b \<Rightarrow>
          (case filter_ops c xs of
             Inl e \<Rightarrow> Inl e
           | Inr ys \<Rightarrow> Inr (if b then x # ys else ys)))"

text \<open>\<^verbatim>\<open>op.get('operation_type') in operation_types\<close>\<close>

definition type_selected :: "string list \<Rightarrow> json \<Rightarrow> pyerror + bool" where
  "type_selected operation_types operation =
     (case dict_get operation ''operation_type'' JNull of
        Inl e \<Rightarrow> Inl e
      | Inr (JStr s) \<Rightarrow> Inr (s \<in> set operation_types)
      | Inr _ \<Rightarrow> Inr False)"

text \<open>
  \<^verbatim>\<open>op.get('timestamp', '') > after_timestamp\<close>: strings compare lexicographically, and a
  string does not compare with any other value.
\<close>

definition is_after :: "string \<Rightarrow> json \<Rightarrow> pyerror + bool" where
  "is_after after_timestamp operation =
     (case dict_get operation ''timestamp'' (JStr []) of
        Inl e \<Rightarrow> Inl e
      | Inr (JStr s) \<Rightarrow> Inr (s > after_timestamp)
      | Inr _ \<Rightarrow> Inl TypeError)"

definition is_before :: "string \<Rightarrow> json \<Rightarrow> pyerror + bool" where
  "is_before before_timestamp operation =
     (case dict_get operation ''timestamp'' (JStr []) of
        Inl e \<Rightarrow> Inl e
      | Inr (JStr s) \<Rightarrow> Inr (s < before_timestamp)
      | Inr _ \<Rightarrow> Inl TypeError)"

text \<open>
  The three filters of \<^verbatim>\<open>execute_rollback\<close>. Each is applied only when its argument is
  truthy: given, and not empty.
\<close>

definition by_type :: "string list option \<Rightarrow> json list \<Rightarrow> pyerror + json list" where
  "by_type operation_types ops =
     (case operation_types of
        None \<Rightarrow> Inr ops
      | Some ts \<Rightarrow> if ts = [] then Inr ops else filter_ops (type_selected ts) ops)"

definition by_after :: "string option \<Rightarrow> json list \<Rightarrow> pyerror + json list" where
  "by_after after_timestamp ops =
     (case after_timestamp of
        None \<Rightarrow> Inr ops
      | Some b \<Rightarrow> if b = [] then Inr ops else filter_ops (is_after b) ops)"

definition by_before :: "string option \<Rightarrow> json list \<Rightarrow> pyerror + json list" where
  "by_before before_timestamp ops =
     (case before_timestamp of
        None \<Rightarrow> Inr ops
      | Some b \<Rightarrow> if b = [] then Inr ops else filter_ops (is_before b) ops)"

definition select_operations ::
  "json \<Rightarrow> string list option \<Rightarrow> string option \<Rightarrow> string option \<Rightarrow> pyerror + json list" where
  "select_operations operations operation_types after_timestamp before_timestamp =
     (case py_iter operations of
        Inl e \<Rightarrow> Inl e
      | Inr ops \<Rightarrow>
          (case by_type operation_types ops of
             Inl e \<Rightarrow> Inl e
           | Inr ops1 \<Rightarrow>
               (case by_after after_timestamp ops1 of
                  Inl e \<Rightarrow> Inl e
                | Inr ops2 \<Rightarrow> by_before before_timestamp ops2)))"

text \<open>
  What the three filters are meant to select, in the words of their help texts: the
  entries of one of the given types, with a timestamp strictly after and strictly before
  the bounds, an absent timestamp standing for the empty string and an absent or empty
  argument for no filter.
\<close>

definition timestamp_of :: "json \<Rightarrow> string" where
  "timestamp_of operation =
     (case dict_get operation ''timestamp'' (JStr []) of
        Inr (JStr s) \<Rightarrow> s
      | _ \<Rightarrow> [])"

definition selected :: "string list option \<Rightarrow> string option \<Rightarrow> string option \<Rightarrow> json \<Rightarrow> bool" where
  "selected operation_types after_timestamp before_timestamp operation =
     ((case operation_types of
         None \<Rightarrow> True
       | Some ts \<Rightarrow>
           ts = [] \<or>
           (case dict_get operation ''operation_type'' JNull of
              Inr (JStr s) \<Rightarrow> s \<in> set ts
            | _ \<Rightarrow> False))
      \<and> (case after_timestamp of
           None \<Rightarrow> True
         | Some b \<Rightarrow> b = [] \<or> b < timestamp_of operation)
      \<and> (case before_timestamp of
           None \<Rightarrow> True
         | Some b \<Rightarrow> b = [] \<or> timestamp_of operation < b))"

text \<open>An entry whose timestamp the filters can compare: a dict, the timestamp absent or a string.\<close>

definition stamped :: "json \<Rightarrow> bool" where
  "stamped operation =
     (case dict_get operation ''timestamp'' (JStr []) of
        Inr (JStr s) \<Rightarrow> True
      | _ \<Rightarrow> False)"

text \<open>
  An entry the utility can read through: its timestamp can be compared, and it carries,
  as strings, the paths the handler of its type looks up.
\<close>

definition readable :: "json \<Rightarrow> bool" where
  "readable operation =
     (stamped operation \<and>
      (case dict_get operation ''operation_type'' (JStr []) of
         Inl e \<Rightarrow> False
       | Inr ty \<Rightarrow>
           if ty = JStr ''delete''
           then \<not> isl (Path_at operation ''original_path'')
                \<and> \<not> isl (Path_at operation ''backup_path'')
           else if ty \<in> set [JStr ''softlink'', JStr ''hardlink'']
           then \<not> isl (Path_at operation ''target_path'')
                \<and> \<not> isl (Path_at operation ''backup_path'')
           else True))"

definition count_result :: "bool \<Rightarrow> DuplicateRollback \<Rightarrow> DuplicateRollback" where
  "count_result ok rb =
     (if ok
      then rb\<lparr>rb_stats := (rb_stats rb)\<lparr>successful_rollbacks :=
             successful_rollbacks (rb_stats rb) + 1\<rparr>\<rparr>
      else rb\<lparr>rb_stats := (rb_stats rb)\<lparr>failed_rollbacks :=
             failed_rollbacks (rb_stats rb) + 1\<rparr>\<rparr>)"

text \<open>
  The loop of \<^verbatim>\<open>execute_rollback\<close>, over the operations as \<^verbatim>\<open>reversed\<close> yields them. The
  log line at the head of the body reads the operation with \<^verbatim>\<open>.get\<close>. An exception leaves
  the loop where it stands (\<open>Some e\<close>).
\<close>

fun rollback_loop ::
  "json list \<Rightarrow> DuplicateRollback \<Rightarrow> world \<Rightarrow> pyerror option \<times> DuplicateRollback \<times> world" where
  "rollback_loop [] rb w = (None, rb, w)"
| "rollback_loop (operation # rest) rb w =
     (case dict_get operation ''operation_type'' JNull of
        Inl e \<Rightarrow> (Some e, rb, w)
      | Inr _ \<Rightarrow>
          (case rollback_operation (rb\<lparr>attempted := attempted rb @ [operation]\<rparr>) operation w of
             Inl e \<Rightarrow> (Some e, rb\<lparr>attempted := attempted rb @ [operation]\<rparr>, w)
           | Inr (ok, rb', w') \<Rightarrow> rollback_loop rest (count_result ok rb') w'))"

datatype outcome = Exit nat | Raised pyerror

definition execute_rollback ::
  "DuplicateRollback \<Rightarrow> path \<Rightarrow> string list option \<Rightarrow> string option \<Rightarrow> string option \<Rightarrow> world
     \<Rightarrow> outcome \<times> DuplicateRollback \<times> world" where
  "execute_rollback rb file operation_types after_timestamp before_timestamp w =
     (case load_rollback_data w file of
        None \<Rightarrow> (Exit 1, rb, w)
      | Some data \<Rightarrow>
          if \<not> truthy data then (Exit 1, rb, w)
          else case subscript data ''operations'' of
            Inl e \<Rightarrow> (Raised e, rb, w)
          | Inr operations \<Rightarrow>
              (case select_operations operations operation_types after_timestamp
                      before_timestamp of
                 Inl e \<Rightarrow> (Raised e, rb, w)
               | Inr ops \<Rightarrow>
                   if ops = [] then (Exit 0, rb, w)
                   else
                     (case rollback_loop (rev ops)
                             (rb\<lparr>rb_stats := (rb_stats rb)\<lparr>total_operations := length ops\<rparr>\<rparr>) w of
                        (Some e, rb', w') \<Rightarrow> (Raised e, rb', w')
                      | (None, rb', w') \<Rightarrow>
                          (Exit (if failed_rollbacks (rb_stats rb') = 0 then 0 else 2),
                           rb', w'))))"

section \<open>Sample sessions\<close>

text \<open>
  A small tree: one file name in two folders, the working directory with the session's
  backup directory, and the ledger a previous session left. The clock's readings all fall
  in the same second.
\<close>

definition sample_clock :: "nat \<Rightarrow> datetime" where
  "sample_clock n =
     \<lparr>year = 2025, month = 8, day = 10, hour = 10, minute = 0, second = 0,
      microsecond = Suc n\<rparr>"

definition previous_ledger :: json where
  "previous_ledger =
     JDict [(''timestamp'', JStr ''2025-08-09T09:30:00.000100''),
            (''dry_run'', JBool False),
            (''backup_directory'', JStr ''/work/old''),
            (''operations'',
               JList [JDict [(''timestamp'', JStr ''2025-08-09T09:30:00.000050''),
                             (''operation_type'', JStr ''delete''),
                             (''original_path'', JStr ''/a/old.txt''),
                             (''target_path'', JStr []),
                             (''backup_path'', JStr ''/work/old/deleted_old.txt_093000''),
                             (''status'', JStr ''active'')]])]"

definition sample_tree :: "path \<rightharpoonup> node" where
  "sample_tree =
     map_of [(''/'', Dir), (''/a'', Dir), (''/b'', Dir), (''/work'', Dir),
             (''/work/backups'', Dir), (''/work/old'', Dir),
             (''/a/x.txt'', File (Bytes ''first'')),
             (''/b/x.txt'', File (Bytes ''second'')),
             (''/work/old/deleted_old.txt_093000'', File (Bytes ''old'')),
             (''/work/duplicate_rollback.json'', File (Json previous_ledger))]"

definition sample_world :: world where
  "sample_world =
     \<lparr>fs = sample_tree, writable = (\<lambda>p. True), device = (\<lambda>p. Some 1),
      copy_fails = (\<lambda>p q. False), unlink_fails = (\<lambda>p. False), link_fails = (\<lambda>p. False),
      mkdir_fails = (\<lambda>p. False), open_fails = (\<lambda>p. False),
      clock = sample_clock, reads = 0\<rparr>"

definition sample_executor :: "bool \<Rightarrow> executor" where
  "sample_executor dry =
     \<lparr>dry_run = dry, base_dir = ''/work'', backup_dir = ''/work/backups'',
      log_file = ''/work/duplicate_actions.log'',
      rollback_file = ''/work/duplicate_rollback.json'', rollback_entries = [],
      stats = \<lparr>total_rows = 1, processed_rows = 0, softlinks_created = 0,
               hardlinks_created = 0, files_deleted = 0, errors = 0, skipped = 0\<rparr>\<rparr>"

definition sample_row :: "string \<Rightarrow> string \<Rightarrow> DuplicateEntry" where
  "sample_row original a =
     \<lparr>row_num = 3, original_folder = ''/a'', original_file = original,
      duplicate_folder = ''/b'', duplicate_file = ''x.txt'', size_str = ''6'',
      hash_value = ''0f'', keep_orig = [], keep_dup = [], action = a, notes_str = []\<rparr>"

text \<open>The sample world with \<^verbatim>\<open>unlink\<close> refused on the listed paths.\<close>

definition unlink_refused :: "path list \<Rightarrow> world" where
  "unlink_refused ps = sample_world\<lparr>unlink_fails := (\<lambda>p. p \<in> set ps)\<rparr>"

text \<open>
  The sample world with folder \<^verbatim>\<open>/b\<close> on a second device, and directory \<^verbatim>\<open>/a\<close> reported
  writable or not.
\<close>

definition two_devices :: "bool \<Rightarrow> world" where
  "two_devices a_writable =
     sample_world\<lparr>device := (\<lambda>p. if p = ''/b'' then Some 2 else Some 1),
                  writable := (\<lambda>p. p \<noteq> ''/a'' \<or> a_writable)\<rparr>"

text \<open>Ledgers for the rollback utility, and the sample world holding one of them.\<close>

definition ledger_of :: "json list \<Rightarrow> json" where
  "ledger_of ops =
     JDict [(''timestamp'', JStr ''2025-08-09T09:30:00.000100''), (''operations'', JList ops)]"

definition ledger_world :: "json \<Rightarrow> world" where
  "ledger_world v =
     sample_world\<lparr>fs := (fs sample_world)(''/work/duplicate_rollback.json'' \<mapsto> File (Json v))\<rparr>"

text \<open>The entry of the previous session: \<^verbatim>\<open>/a/old.txt\<close> was deleted, its backup exists.\<close>

definition old_delete :: json where
  "old_delete =
     JDict [(''timestamp'', JStr ''2025-08-09T09:30:00.000050''),
            (''operation_type'', JStr ''delete''),
            (''original_path'', JStr ''/a/old.txt''),
            (''target_path'', JStr []),
            (''backup_path'', JStr ''/work/old/deleted_old.txt_093000''),
            (''status'', JStr ''active'')]"

text \<open>A delete entry that has lost its \<^verbatim>\<open>backup_path\<close>.\<close>

definition torn_delete :: json where
  "torn_delete =
     JDict [(''timestamp'', JStr ''2025-08-09T09:30:00.000070''),
            (''operation_type'', JStr ''delete''),
            (''original_path'', JStr ''/a/other.txt'')]"

text \<open>An entry of a type the utility does not know.\<close>

definition move_entry :: json where
  "move_entry =
     JDict [(''timestamp'', JStr ''2025-08-09T09:30:00.000060''),
            (''operation_type'', JStr ''move''),
            (''original_path'', JStr ''/a/m.txt'')]"

text \<open>The sample world with every copy refused, as on a full disk.\<close>

definition copy_refused :: world where
  "copy_refused = sample_world\<lparr>copy_fails := (\<lambda>p q. True)\<rparr>"

text \<open>The sample world with a directory where the duplicate \<^verbatim>\<open>/b/x.txt\<close> was.\<close>

definition duplicate_is_directory :: world where
  "duplicate_is_directory = sample_world\<lparr>fs := (fs sample_world)(''/b/x.txt'' \<mapsto> Dir)\<rparr>"

section \<open>Facts about the executor\<close>

lemma unlink_Some: "unlink p w = Some w' \<Longrightarrow> fs w' p = None \<and> fs w p \<noteq> None"
  by (auto simp: unlink_def split: if_splits option.splits node.splits)

lemma symlink_to_Some: "symlink_to t s w = Some w' \<Longrightarrow> fs w' t = Some (Symlink s)"
  by (auto simp: symlink_to_def split: if_splits)

text \<open>A copy never lands on its own source, so the source's entry stays as it is.\<close>

lemma write_target_Some:
  "write_target n t p = Some q \<Longrightarrow> t q = None \<or> (\<exists>c. t q = Some (File c))"
proof (induction n arbitrary: p)
  case 0
  then show ?case
    by (auto simp: write_target.simps [of 0] split: option.splits node.splits)
next
  case (Suc n)
  then show ?case
    by (auto simp: write_target.simps [of "Suc n"] split: option.splits node.splits)
qed

lemma copy2_keeps_source:
  assumes "copy2 src dst w = Some w'"
  shows "fs w' src = fs w src"
proof -
  from assms obtain c t where r: "read_file w src = Some c"
    and t: "write_target 40 (fs w)
              (if is_dir w dst then path_join dst (path_name src) else dst) = Some t"
    and n: "resolve 40 (fs w) src \<noteq> Some t"
    and w': "w' = w\<lparr>fs := (fs w)(t \<mapsto> File c)\<rparr>"
    by (auto simp: copy2_def Let_def split: if_splits option.splits)
  have "t \<noteq> src"
  proof
    assume e: "t = src"
    from write_target_Some [OF t] e
    have "fs w src = None \<or> (\<exists>c. fs w src = Some (File c))"
      by simp
    then show False
      using r n e
      by (auto simp: read_file_def resolve.simps [of 40] split: option.splits)
  qed
  then show ?thesis
    using w' by simp
qed

text \<open>What a call of \<open>execute_delete\<close> can do: nothing and succeed, fail, or delete.\<close>

lemma execute_delete_result:
  assumes "execute_delete p ex w = (ok, ex', w')"
  shows "(ok \<and> ex' = ex \<and> w' = w \<and> (dry_run ex \<or> \<not> exists w p))
       \<or> (\<not> ok \<and> ex' = ex \<and> \<not> dry_run ex \<and> exists w p)
       \<or> (ok \<and> \<not> dry_run ex \<and> exists w p \<and> fs w' p = None \<and>
           (\<exists>e. ex' = ex\<lparr>rollback_entries := rollback_entries ex @ [e],
                         stats := (stats ex)\<lparr>files_deleted := files_deleted (stats ex) + 1\<rparr>\<rparr>
                \<and> operation_type e = ''delete'' \<and> original_path e = p))"
proof (cases "dry_run ex \<or> \<not> exists w p")
  case True
  then have "execute_delete p ex w = (True, ex, w)"
    by (auto simp: execute_delete_def)
  then show ?thesis using assms True by simp
next
  case False
  define nm where "nm = ''deleted_'' @ path_name p @ ''_'' @ strftime_HMS (fst (now w))"
  obtain b w2 where cb: "create_backup ex p nm (snd (now w)) = (b, w2)"
    by (cases "create_backup ex p nm (snd (now w))") auto
  show ?thesis
  proof (cases b)
    case b: False
    then show ?thesis using assms False cb
      by (simp add: execute_delete_def Let_def nm_def split: prod.splits)
  next
    case b: True
    show ?thesis
    proof (cases "unlink p w2")
      case None
      then show ?thesis using assms False cb b
        by (simp add: execute_delete_def Let_def nm_def split: prod.splits)
    next
      case (Some w3)
      then have "fs (snd (now w3)) p = None"
        by (simp add: now_def unlink_Some)
      then show ?thesis using Some assms False cb b
        by (auto simp add: execute_delete_def Let_def nm_def split: prod.splits)
    qed
  qed
qed

text \<open>A delete that reports failure has not removed the file.\<close>

lemma execute_delete_failure_keeps:
  assumes "execute_delete p ex w = (False, ex', w')"
  shows "fs w' p = fs w p"
proof (cases "dry_run ex \<or> \<not> exists w p")
  case True
  then have "execute_delete p ex w = (True, ex, w)"
    by (auto simp: execute_delete_def)
  then show ?thesis using assms by simp
next
  case False
  define nm where "nm = ''deleted_'' @ path_name p @ ''_'' @ strftime_HMS (fst (now w))"
  obtain b w2 where cb: "create_backup ex p nm (snd (now w)) = (b, w2)"
    by (cases "create_backup ex p nm (snd (now w))") auto
  have k: "fs w2 p = fs w p"
  proof (cases "copy2 p (path_join (backup_dir ex) nm) (snd (now w))")
    case None
    then show ?thesis
      using cb by (auto simp: create_backup_def now_def split: if_splits)
  next
    case (Some v)
    from copy2_keeps_source [OF Some] have "fs v p = fs w p"
      by (simp add: now_def)
    then show ?thesis
      using cb Some by (auto simp: create_backup_def now_def split: if_splits)
  qed
  show ?thesis
  proof (cases b)
    case b: False
    then show ?thesis using assms False cb k
      by (simp add: execute_delete_def Let_def nm_def split: prod.splits)
  next
    case b: True
    show ?thesis
    proof (cases "unlink p w2")
      case None
      then show ?thesis using assms False cb b k
        by (simp add: execute_delete_def Let_def nm_def split: prod.splits)
    next
      case (Some w3)
      then show ?thesis using assms False cb b
        by (simp add: execute_delete_def Let_def nm_def split: prod.splits)
    qed
  qed
qed

lemma execute_soft_link_result:
  assumes "execute_soft_link s t ex w = (ok, ex', w')"
  shows "(ok \<and> ex' = ex \<and> w' = w \<and> dry_run ex)
       \<or> (\<not> ok \<and> ex' = ex \<and> \<not> dry_run ex)
       \<or> (ok \<and> \<not> dry_run ex \<and> fs w' t = Some (Symlink s) \<and>
           (\<exists>e. ex' = ex\<lparr>rollback_entries := rollback_entries ex @ [e],
                         stats := (stats ex)\<lparr>softlinks_created :=
                           softlinks_created (stats ex) + 1\<rparr>\<rparr>
                \<and> operation_type e = ''softlink'' \<and> original_path e = s
                \<and> target_path e = t))"
proof (cases "dry_run ex")
  case True
  then have "execute_soft_link s t ex w = (True, ex, w)"
    by (simp add: execute_soft_link_def)
  then show ?thesis using assms True by simp
next
  case False
  define nm where "nm = ''softlink_'' @ path_name t @ ''_'' @ strftime_HMS (fst (now w))"
  obtain b w2 where cb: "create_backup ex t nm (snd (now w)) = (b, w2)"
    by (cases "create_backup ex t nm (snd (now w))") auto
  show ?thesis
  proof (cases b)
    case b: False
    then show ?thesis using assms False cb
      by (simp add: execute_soft_link_def Let_def nm_def split: prod.splits)
  next
    case b: True
    show ?thesis
    proof (cases "if exists w2 t then unlink t w2 else Some w2")
      case None
      then show ?thesis using assms False cb b
        by (simp add: execute_soft_link_def Let_def nm_def split: prod.splits)
    next
      case (Some w3)
      show ?thesis
      proof (cases "symlink_to t s w3")
        case None
        then show ?thesis using Some assms False cb b
          by (simp add: execute_soft_link_def Let_def nm_def split: prod.splits)
      next
        case w4: (Some w4)
        then have "fs (snd (now w4)) t = Some (Symlink s)"
          by (simp add: now_def symlink_to_Some)
        then show ?thesis using w4 Some assms False cb b
          by (auto simp add: execute_soft_link_def Let_def nm_def split: prod.splits)
      qed
    qed
  qed
qed

lemma execute_hard_link_result:
  assumes "execute_hard_link s t ex w = (ok, ex', w')"
  shows "(ok \<and> ex' = ex \<and> w' = w \<and> dry_run ex)
       \<or> (\<not> ok \<and> ex' = ex \<and> \<not> dry_run ex)
       \<or> (ok \<and> \<not> dry_run ex \<and> fs w' t \<noteq> None \<and>
           (\<exists>e. ex' = ex\<lparr>rollback_entries := rollback_entries ex @ [e],
                         stats := (stats ex)\<lparr>hardlinks_created :=
                           hardlinks_created (stats ex) + 1\<rparr>\<rparr>
                \<and> operation_type e = ''hardlink'' \<and> original_path e = s
                \<and> target_path e = t))"
proof (cases "dry_run ex")
  case True
  then have "execute_hard_link s t ex w = (True, ex, w)"
    by (simp add: execute_hard_link_def)
  then show ?thesis using assms True by simp
next
  case False
  define nm where "nm = ''hardlink_'' @ path_name t @ ''_'' @ strftime_HMS (fst (now w))"
  obtain b w2 where cb: "create_backup ex t nm (snd (now w)) = (b, w2)"
    by (cases "create_backup ex t nm (snd (now w))") auto
  show ?thesis
  proof (cases b)
    case b: False
    then show ?thesis using assms False cb
      by (simp add: execute_hard_link_def Let_def nm_def split: prod.splits)
  next
    case b: True
    show ?thesis
    proof (cases "if exists w2 t then unlink t w2 else Some w2")
      case None
      then show ?thesis using assms False cb b
        by (simp add: execute_hard_link_def Let_def nm_def split: prod.splits)
    next
      case (Some w3)
      show ?thesis
      proof (cases "hardlink_to t s w3")
        case None
        then show ?thesis using Some assms False cb b
          by (simp add: execute_hard_link_def Let_def nm_def split: prod.splits)
      next
        case w4: (Some w4)
        then have "fs (snd (now w4)) t \<noteq> None"
          by (auto simp: now_def hardlink_to_def split: if_splits option.splits node.splits)
        then show ?thesis using w4 Some assms False cb b
          by (auto simp add: execute_hard_link_def Let_def nm_def split: prod.splits)
      qed
    qed
  qed
qed

text \<open>
  C3, as amended. In a session that is not a dry run, a link operation appends one ledger
  entry exactly when it reports success, and a delete appends one exactly when it reports
  success on a path that existed; a delete of a path that is already absent reports
  success and appends nothing. An operation whose backup fails, or whose file system call
  fails after the backup, reports failure and leaves the session's ledger and counters as
  they were.
\<close>

theorem ledger_entry_iff_mutation:
  assumes "\<not> dry_run ex"
  shows
  "(execute_soft_link s t ex w = (ok, ex', w') \<longrightarrow>
      (if ok then \<exists>e. rollback_entries ex' = rollback_entries ex @ [e]
                      \<and> operation_type e = ''softlink'' \<and> target_path e = t
       else rollback_entries ex' = rollback_entries ex))
   \<and> (execute_hard_link s t ex w = (ok, ex', w') \<longrightarrow>
      (if ok then \<exists>e. rollback_entries ex' = rollback_entries ex @ [e]
                      \<and> operation_type e = ''hardlink'' \<and> target_path e = t
       else rollback_entries ex' = rollback_entries ex))
   \<and> (execute_delete p ex w = (ok, ex', w') \<longrightarrow>
      (if ok \<and> exists w p
       then \<exists>e. rollback_entries ex' = rollback_entries ex @ [e]
                \<and> operation_type e = ''delete'' \<and> original_path e = p
       else rollback_entries ex' = rollback_entries ex))
   \<and> (create_backup ex t (''softlink_'' @ path_name t @ ''_'' @ strftime_HMS (fst (now w)))
         (snd (now w)) = (False, w2) \<longrightarrow>
      execute_soft_link s t ex w = (False, ex, w2))
   \<and> (create_backup ex t (''hardlink_'' @ path_name t @ ''_'' @ strftime_HMS (fst (now w)))
         (snd (now w)) = (False, w2) \<longrightarrow>
      execute_hard_link s t ex w = (False, ex, w2))
   \<and> (exists w p
       \<and> create_backup ex p (''deleted_'' @ path_name p @ ''_'' @ strftime_HMS (fst (now w)))
           (snd (now w)) = (False, w2) \<longrightarrow>
      execute_delete p ex w = (False, ex, w2))
   \<and> (create_backup ex t (''softlink_'' @ path_name t @ ''_'' @ strftime_HMS (fst (now w)))
         (snd (now w)) = (True, w2)
       \<and> (if exists w2 t then unlink t w2 else Some w2) = Some w3
       \<and> symlink_to t s w3 = None \<longrightarrow>
      \<not> fst (execute_soft_link s t ex w) \<and> fst (snd (execute_soft_link s t ex w)) = ex)
   \<and> (create_backup ex t (''hardlink_'' @ path_name t @ ''_'' @ strftime_HMS (fst (now w)))
         (snd (now w)) = (True, w2)
       \<and> (if exists w2 t then unlink t w2 else Some w2) = Some w3
       \<and> hardlink_to t s w3 = None \<longrightarrow>
      \<not> fst (execute_hard_link s t ex w) \<and> fst (snd (execute_hard_link s t ex w)) = ex)
   \<and> (exists w p
       \<and> create_backup ex p (''deleted_'' @ path_name p @ ''_'' @ strftime_HMS (fst (now w)))
           (snd (now w)) = (True, w2)
       \<and> unlink p w2 = None \<longrightarrow>
      execute_delete p ex w = (False, ex, w2))"
proof -
  have 1: "execute_soft_link s t ex w = (ok, ex', w') \<longrightarrow>
      (if ok then \<exists>e. rollback_entries ex' = rollback_entries ex @ [e]
                      \<and> operation_type e = ''softlink'' \<and> target_path e = t
       else rollback_entries ex' = rollback_entries ex)"
    using assms execute_soft_link_result [of s t ex w ok ex' w'] by auto
  have 2: "execute_hard_link s t ex w = (ok, ex', w') \<longrightarrow>
      (if ok then \<exists>e. rollback_entries ex' = rollback_entries ex @ [e]
                      \<and> operation_type e = ''hardlink'' \<and> target_path e = t
       else rollback_entries ex' = rollback_entries ex)"
    using assms execute_hard_link_result [of s t ex w ok ex' w'] by auto
  have 3: "execute_delete p ex w = (ok, ex', w') \<longrightarrow>
      (if ok \<and> exists w p
       then \<exists>e. rollback_entries ex' = rollback_entries ex @ [e]
                \<and> operation_type e = ''delete'' \<and> original_path e = p
       else rollback_entries ex' = rollback_entries ex)"
    using assms execute_delete_result [of p ex w ok ex' w'] by auto
  have 4: "create_backup ex t (''softlink_'' @ path_name t @ ''_'' @ strftime_HMS (fst (now w)))
         (snd (now w)) = (False, w2) \<longrightarrow>
      execute_soft_link s t ex w = (False, ex, w2)"
    using assms by (simp add: execute_soft_link_def Let_def split: prod.splits)
  have 5: "create_backup ex t (''hardlink_'' @ path_name t @ ''_'' @ strftime_HMS (fst (now w)))
         (snd (now w)) = (False, w2) \<longrightarrow>
      execute_hard_link s t ex w = (False, ex, w2)"
    using assms by (simp add: execute_hard_link_def Let_def split: prod.splits)
  have 6: "exists w p
       \<and> create_backup ex p (''deleted_'' @ path_name p @ ''_'' @ strftime_HMS (fst (now w)))
           (snd (now w)) = (False, w2) \<longrightarrow>
      execute_delete p ex w = (False, ex, w2)"
    using assms by (simp add: execute_delete_def Let_def split: prod.splits)
  have 7: "create_backup ex t (''softlink_'' @ path_name t @ ''_'' @ strftime_HMS (fst (now w)))
         (snd (now w)) = (True, w2)
       \<and> (if exists w2 t then unlink t w2 else Some w2) = Some w3
       \<and> symlink_to t s w3 = None \<longrightarrow>
      \<not> fst (execute_soft_link s t ex w) \<and> fst (snd (execute_soft_link s t ex w)) = ex"
  proof
    assume "create_backup ex t (''softlink_'' @ path_name t @ ''_'' @ strftime_HMS (fst (now w)))
         (snd (now w)) = (True, w2)
       \<and> (if exists w2 t then unlink t w2 else Some w2) = Some w3
       \<and> symlink_to t s w3 = None"
    then have cb: "create_backup ex t
          (''softlink_'' @ path_name t @ ''_'' @ strftime_HMS (fst (now w))) (snd (now w))
          = (True, w2)"
      and u: "(if exists w2 t then unlink t w2 else Some w2) = Some w3"
      and l: "symlink_to t s w3 = None"
      by blast+
    show "\<not> fst (execute_soft_link s t ex w) \<and> fst (snd (execute_soft_link s t ex w)) = ex"
    proof (cases "exists w2 t")
      case True
      then have "unlink t w2 = Some w3"
        using u by simp
      then show ?thesis
        using assms cb l True
        by (simp add: execute_soft_link_def Let_def now_def)
    next
      case False
      then have "w3 = w2"
        using u by simp
      then show ?thesis
        using assms cb l False
        by (simp add: execute_soft_link_def Let_def now_def)
    qed
  qed
  have 8: "create_backup ex t (''hardlink_'' @ path_name t @ ''_'' @ strftime_HMS (fst (now w)))
         (snd (now w)) = (True, w2)
       \<and> (if exists w2 t then unlink t w2 else Some w2) = Some w3
       \<and> hardlink_to t s w3 = None \<longrightarrow>
      \<not> fst (execute_hard_link s t ex w) \<and> fst (snd (execute_hard_link s t ex w)) = ex"
  proof
    assume "create_backup ex t (''hardlink_'' @ path_name t @ ''_'' @ strftime_HMS (fst (now w)))
         (snd (now w)) = (True, w2)
       \<and> (if exists w2 t then unlink t w2 else Some w2) = Some w3
       \<and> hardlink_to t s w3 = None"
    then have cb: "create_backup ex t
          (''hardlink_'' @ path_name t @ ''_'' @ strftime_HMS (fst (now w))) (snd (now w))
          = (True, w2)"
      and u: "(if exists w2 t then unlink t w2 else Some w2) = Some w3"
      and l: "hardlink_to t s w3 = None"
      by blast+
    show "\<not> fst (execute_hard_link s t ex w) \<and> fst (snd (execute_hard_link s t ex w)) = ex"
    proof (cases "exists w2 t")
      case True
      then have "unlink t w2 = Some w3"
        using u by simp
      then show ?thesis
        using assms cb l True
        by (simp add: execute_hard_link_def Let_def now_def)
    next
      case False
      then have "w3 = w2"
        using u by simp
      then show ?thesis
        using assms cb l False
        by (simp add: execute_hard_link_def Let_def now_def)
    qed
  qed
  have 9: "exists w p
       \<and> create_backup ex p (''deleted_'' @ path_name p @ ''_'' @ strftime_HMS (fst (now w)))
           (snd (now w)) = (True, w2)
       \<and> unlink p w2 = None \<longrightarrow>
      execute_delete p ex w = (False, ex, w2)"
    using assms by (simp add: execute_delete_def Let_def split: prod.splits)
  show ?thesis
    using 1 2 3 4 5 6 7 8 9 by blast
qed

text \<open>
  The claim as stated fails on a delete of an absent path: the operation succeeds and the
  ledger gets no entry.
\<close>

theorem ledger_entry_iff_mutation_counterexample:
  "\<not> dry_run (sample_executor False)
   \<and> fst (execute_delete ''/a/gone.txt'' (sample_executor False) sample_world)
   \<and> rollback_entries (fst (snd (execute_delete ''/a/gone.txt'' (sample_executor False)
        sample_world))) = rollback_entries (sample_executor False)"
  by (simp add: execute_delete_def sample_executor_def sample_world_def sample_tree_def
      exists_def resolve.simps)

lemma refused_delete_runs:
  "exists copy_refused ''/a/x.txt''
   \<and> \<not> fst (create_backup (sample_executor False) ''/a/x.txt''
        (''deleted_'' @ path_name ''/a/x.txt'' @ ''_'' @ strftime_HMS (fst (now copy_refused)))
        (snd (now copy_refused)))
   \<and> exists (unlink_refused [''/a/x.txt'']) ''/a/x.txt''
   \<and> fst (create_backup (sample_executor False) ''/a/x.txt''
        (''deleted_'' @ path_name ''/a/x.txt'' @ ''_'' @
         strftime_HMS (fst (now (unlink_refused [''/a/x.txt'']))))
        (snd (now (unlink_refused [''/a/x.txt'']))))
   \<and> unlink ''/a/x.txt'' (snd (create_backup (sample_executor False) ''/a/x.txt''
        (''deleted_'' @ path_name ''/a/x.txt'' @ ''_'' @
         strftime_HMS (fst (now (unlink_refused [''/a/x.txt'']))))
        (snd (now (unlink_refused [''/a/x.txt'']))))) = None"
  by code_simp

theorem ledger_entry_iff_mutation_witness:
  "\<not> dry_run (sample_executor False)
   \<and> (\<exists>e. rollback_entries (fst (snd (execute_soft_link ''/a/x.txt'' ''/b/x.txt''
          (sample_executor False) sample_world))) = rollback_entries (sample_executor False) @ [e]
        \<and> operation_type e = ''softlink'' \<and> target_path e = ''/b/x.txt'')
   \<and> (\<exists>e. rollback_entries (fst (snd (execute_hard_link ''/a/x.txt'' ''/b/x.txt''
          (sample_executor False) sample_world))) = rollback_entries (sample_executor False) @ [e]
        \<and> operation_type e = ''hardlink'' \<and> target_path e = ''/b/x.txt'')
   \<and> (\<exists>e. rollback_entries (fst (snd (execute_delete ''/a/x.txt'' (sample_executor False)
          sample_world))) = rollback_entries (sample_executor False) @ [e]
        \<and> operation_type e = ''delete'' \<and> original_path e = ''/a/x.txt'')
   \<and> \<not> fst (execute_delete ''/a/x.txt'' (sample_executor False) copy_refused)
   \<and> fst (snd (execute_delete ''/a/x.txt'' (sample_executor False) copy_refused))
       = sample_executor False
   \<and> \<not> fst (execute_delete ''/a/x.txt'' (sample_executor False)
        (unlink_refused [''/a/x.txt'']))
   \<and> fst (snd (execute_delete ''/a/x.txt'' (sample_executor False)
        (unlink_refused [''/a/x.txt''])))
       = sample_executor False"
proof -
  let ?ex = "sample_executor False"
  have d: "\<not> dry_run ?ex"
    by (simp add: sample_executor_def)
  obtain ok1 ex1 w1 where r1: "execute_soft_link ''/a/x.txt'' ''/b/x.txt''
      ?ex sample_world = (ok1, ex1, w1)"
    using prod_cases3 by blast
  have "fst (execute_soft_link ''/a/x.txt'' ''/b/x.txt'' ?ex sample_world)"
    by code_simp
  then have ok1: "ok1" using r1 by simp
  obtain ok2 ex2 w2 where r2: "execute_hard_link ''/a/x.txt'' ''/b/x.txt''
      ?ex sample_world = (ok2, ex2, w2)"
    using prod_cases3 by blast
  have "fst (execute_hard_link ''/a/x.txt'' ''/b/x.txt'' ?ex sample_world)"
    by code_simp
  then have ok2: "ok2" using r2 by simp
  obtain ok3 ex3 w3 where
    r3: "execute_delete ''/a/x.txt'' ?ex sample_world = (ok3, ex3, w3)"
    using prod_cases3 by blast
  have e: "exists sample_world ''/a/x.txt''"
    by (simp add: exists_def resolve.simps sample_world_def sample_tree_def)
  have "fst (execute_delete ''/a/x.txt'' ?ex sample_world)"
    by code_simp
  then have ok3: "ok3" using r3 by simp
  have a: "(\<exists>e. rollback_entries ex1 = rollback_entries ?ex @ [e]
        \<and> operation_type e = ''softlink'' \<and> target_path e = ''/b/x.txt'')"
    using ledger_entry_iff_mutation [OF d, of "''/a/x.txt''" "''/b/x.txt''"
        sample_world ok1 ex1 w1] r1 ok1
    by simp
  have b: "(\<exists>e. rollback_entries ex2 = rollback_entries ?ex @ [e]
        \<and> operation_type e = ''hardlink'' \<and> target_path e = ''/b/x.txt'')"
    using ledger_entry_iff_mutation [OF d, of "''/a/x.txt''" "''/b/x.txt''"
        sample_world ok2 ex2 w2] r2 ok2
    by simp
  have c: "(\<exists>e. rollback_entries ex3 = rollback_entries ?ex @ [e]
        \<and> operation_type e = ''delete'' \<and> original_path e = ''/a/x.txt'')"
    using ledger_entry_iff_mutation [OF d, of "''/a/x.txt''" "''/b/x.txt''"
        sample_world ok3 ex3 w3 "''/a/x.txt''"] r3 ok3 e
    by simp
  let ?nm = "\<lambda>v. ''deleted_'' @ path_name ''/a/x.txt'' @ ''_'' @ strftime_HMS (fst (now v))"
  obtain v2 where cb: "create_backup ?ex ''/a/x.txt'' (?nm copy_refused)
      (snd (now copy_refused)) = (False, v2)"
    using refused_delete_runs
    by (cases "create_backup ?ex ''/a/x.txt'' (?nm copy_refused) (snd (now copy_refused))")
      auto
  have f: "execute_delete ''/a/x.txt'' ?ex copy_refused = (False, ?ex, v2)"
    using ledger_entry_iff_mutation [OF d, of "''/a/x.txt''" "''/b/x.txt''"
        copy_refused ok3 ex3 w3 "''/a/x.txt''" v2] cb refused_delete_runs
    by simp
  let ?u = "unlink_refused [''/a/x.txt'']"
  obtain u2 where ub: "create_backup ?ex ''/a/x.txt'' (?nm ?u) (snd (now ?u)) = (True, u2)"
    using refused_delete_runs
    by (cases "create_backup ?ex ''/a/x.txt'' (?nm ?u) (snd (now ?u))") auto
  then have "unlink ''/a/x.txt'' u2 = None"
    using refused_delete_runs by simp
  then have g: "execute_delete ''/a/x.txt'' ?ex ?u = (False, ?ex, u2)"
    using ledger_entry_iff_mutation [OF d, of "''/a/x.txt''" "''/b/x.txt''"
        ?u ok3 ex3 w3 "''/a/x.txt''" u2] ub refused_delete_runs
    by simp
  show ?thesis
    using a b c d f g r1 r2 r3 by simp
qed

lemma delete_both_refused_runs:
  "(case process_action (sample_row ''x.txt'' ''DELETE_BOTH'') (sample_executor False)
          (unlink_refused [''/b/x.txt'']) of
      (ok, ex', w') \<Rightarrow>
        \<not> ok \<and> errors (stats ex') = 1
        \<and> map original_path (rollback_entries ex') = [''/a/x.txt''])
   \<and> (case process_action (sample_row ''x.txt'' ''DELETE_BOTH'') (sample_executor False)
          (unlink_refused [''/a/x.txt'', ''/b/x.txt'']) of
      (ok, ex', w') \<Rightarrow>
        \<not> ok \<and> errors (stats ex') = 1 \<and> rollback_entries ex' = [])"
  by code_simp

text \<open>One deletion of the pair: it removes the file and records it, or does neither.\<close>

lemma execute_delete_tracked:
  assumes "execute_delete p ex w = (ok, ex', w')"
  shows "if ok \<and> \<not> dry_run ex \<and> exists w p
         then fs w' p = None
              \<and> (\<exists>r. rollback_entries ex' = rollback_entries ex @ [r]
                     \<and> operation_type r = ''delete'' \<and> original_path r = p)
              \<and> stats ex' = (stats ex)\<lparr>files_deleted := files_deleted (stats ex) + 1\<rparr>
              \<and> dry_run ex' = dry_run ex
         else fs w' p = fs w p \<and> ex' = ex"
proof (cases ok)
  case False
  then have "fs w' p = fs w p"
    using execute_delete_failure_keeps [of p ex w ex' w'] assms by simp
  then show ?thesis
    using False execute_delete_result [OF assms] by auto
next
  case True
  then show ?thesis
    using execute_delete_result [OF assms] by auto
qed

text \<open>
  C2, as amended. For a delete-both request that passes validation, the original and the
  duplicate are deleted one after the other, the second whatever the first did. Each of
  the two deletions stands alone: if it reports success on a file that existed (not in a
  dry run), that file is gone, the ledger has gained one entry that names it, and
  \<open>files_deleted\<close> has grown by one; otherwise the file is as it was and the session's
  ledger and counters are untouched. The outcome the request reports is the single boolean
  "both succeeded": anything else counts as one error.
\<close>

theorem delete_both_outcome:
  assumes "ActionType_of (action e) = Some DELETE_BOTH"
    and "validate_file_paths e DELETE_BOTH w = SUCCESS"
    and "execute_delete (entry_original_path e) ex w = (s1, ex1, w1)"
    and "execute_delete (entry_duplicate_path e) ex1 w1 = (s2, ex2, w2)"
    and "process_action e ex w = (ok, ex', w')"
  shows "ok = (s1 \<and> s2) \<and> w' = w2
       \<and> rollback_entries ex' = rollback_entries ex2
       \<and> files_deleted (stats ex') = files_deleted (stats ex2)
       \<and> length (rollback_entries ex') + files_deleted (stats ex) =
           length (rollback_entries ex) + files_deleted (stats ex')
       \<and> errors (stats ex') = errors (stats ex) + (if s1 \<and> s2 then 0 else 1)
       \<and> processed_rows (stats ex') = processed_rows (stats ex) + (if s1 \<and> s2 then 1 else 0)
       \<and> (if s1 \<and> \<not> dry_run ex \<and> exists w (entry_original_path e)
          then fs w1 (entry_original_path e) = None
               \<and> (\<exists>r. rollback_entries ex1 = rollback_entries ex @ [r]
                      \<and> operation_type r = ''delete''
                      \<and> original_path r = entry_original_path e)
               \<and> files_deleted (stats ex1) = files_deleted (stats ex) + 1
          else fs w1 (entry_original_path e) = fs w (entry_original_path e) \<and> ex1 = ex)
       \<and> (if s2 \<and> \<not> dry_run ex \<and> exists w1 (entry_duplicate_path e)
          then fs w2 (entry_duplicate_path e) = None
               \<and> (\<exists>r. rollback_entries ex2 = rollback_entries ex1 @ [r]
                      \<and> operation_type r = ''delete''
                      \<and> original_path r = entry_duplicate_path e)
               \<and> files_deleted (stats ex2) = files_deleted (stats ex1) + 1
          else fs w2 (entry_duplicate_path e) = fs w1 (entry_duplicate_path e) \<and> ex2 = ex1)"
proof -
  have pa: "process_action e ex w = tally (s1 \<and> s2, ex2, w2)"
    using assms(1-4) by (simp add: process_action_def)
  note t1 = execute_delete_tracked [OF assms(3)]
  note t2 = execute_delete_tracked [OF assms(4)]
  have d: "dry_run ex1 = dry_run ex"
    using t1 by (auto split: if_splits)
  have 1: "rollback_entries ex1 = rollback_entries ex \<and> stats ex1 = stats ex
       \<or> length (rollback_entries ex1) = Suc (length (rollback_entries ex))
         \<and> stats ex1 = (stats ex)\<lparr>files_deleted := files_deleted (stats ex) + 1\<rparr>"
    using t1 by (auto split: if_splits)
  have 2: "rollback_entries ex2 = rollback_entries ex1 \<and> stats ex2 = stats ex1
       \<or> length (rollback_entries ex2) = Suc (length (rollback_entries ex1))
         \<and> stats ex2 = (stats ex1)\<lparr>files_deleted := files_deleted (stats ex1) + 1\<rparr>"
    using t2 by (auto split: if_splits)
  have 3: "ok = (s1 \<and> s2)" "w' = w2" "rollback_entries ex' = rollback_entries ex2"
    "files_deleted (stats ex') = files_deleted (stats ex2)"
    "errors (stats ex') = errors (stats ex2) + (if s1 \<and> s2 then 0 else 1)"
    "processed_rows (stats ex') = processed_rows (stats ex2) + (if s1 \<and> s2 then 1 else 0)"
    using pa assms(5) by (auto simp: tally_def)
  have 4: "length (rollback_entries ex2) + files_deleted (stats ex) =
           length (rollback_entries ex) + files_deleted (stats ex2)"
    "errors (stats ex2) = errors (stats ex)"
    "processed_rows (stats ex2) = processed_rows (stats ex)"
    using 1 2 by auto
  have 5: "if s1 \<and> \<not> dry_run ex \<and> exists w (entry_original_path e)
          then fs w1 (entry_original_path e) = None
               \<and> (\<exists>r. rollback_entries ex1 = rollback_entries ex @ [r]
                      \<and> operation_type r = ''delete''
                      \<and> original_path r = entry_original_path e)
               \<and> files_deleted (stats ex1) = files_deleted (stats ex) + 1
          else fs w1 (entry_original_path e) = fs w (entry_original_path e) \<and> ex1 = ex"
    using t1 by (auto split: if_splits)
  have 6: "if s2 \<and> \<not> dry_run ex \<and> exists w1 (entry_duplicate_path e)
          then fs w2 (entry_duplicate_path e) = None
               \<and> (\<exists>r. rollback_entries ex2 = rollback_entries ex1 @ [r]
                      \<and> operation_type r = ''delete''
                      \<and> original_path r = entry_duplicate_path e)
               \<and> files_deleted (stats ex2) = files_deleted (stats ex1) + 1
          else fs w2 (entry_duplicate_path e) = fs w1 (entry_duplicate_path e) \<and> ex2 = ex1"
    using t2 d by (auto split: if_splits)
  show ?thesis
    using 3 4 5 6 by simp
qed

text \<open>
  The claim as stated fails: with \<^verbatim>\<open>unlink\<close> refused on the duplicate alone, one deletion
  succeeds and one fails, and the request reports what it reports when both fail.
\<close>

theorem delete_both_outcome_counterexample:
  "\<not> fst (process_action (sample_row ''x.txt'' ''DELETE_BOTH'') (sample_executor False)
       (unlink_refused [''/b/x.txt'']))
   \<and> map original_path (rollback_entries (fst (snd (process_action
       (sample_row ''x.txt'' ''DELETE_BOTH'') (sample_executor False)
       (unlink_refused [''/b/x.txt''])))))
     = [''/a/x.txt'']
   \<and> errors (stats (fst (snd (process_action (sample_row ''x.txt'' ''DELETE_BOTH'')
       (sample_executor False) (unlink_refused [''/b/x.txt''])))))
     = 1
   \<and> \<not> fst (process_action (sample_row ''x.txt'' ''DELETE_BOTH'') (sample_executor False)
       (unlink_refused [''/a/x.txt'', ''/b/x.txt'']))
   \<and> rollback_entries (fst (snd (process_action (sample_row ''x.txt'' ''DELETE_BOTH'')
       (sample_executor False) (unlink_refused [''/a/x.txt'', ''/b/x.txt''])))) = []
   \<and> errors (stats (fst (snd (process_action (sample_row ''x.txt'' ''DELETE_BOTH'')
       (sample_executor False) (unlink_refused [''/a/x.txt'', ''/b/x.txt''])))))
     = 1"
  using delete_both_refused_runs by (simp add: case_prod_beta)

lemma delete_both_refused_steps:
  "ActionType_of (action (sample_row ''x.txt'' ''DELETE_BOTH'')) = Some DELETE_BOTH
   \<and> validate_file_paths (sample_row ''x.txt'' ''DELETE_BOTH'') DELETE_BOTH
       (unlink_refused [''/b/x.txt'']) = SUCCESS
   \<and> entry_original_path (sample_row ''x.txt'' ''DELETE_BOTH'') = ''/a/x.txt''
   \<and> entry_duplicate_path (sample_row ''x.txt'' ''DELETE_BOTH'') = ''/b/x.txt''
   \<and> exists (unlink_refused [''/b/x.txt'']) ''/a/x.txt''
   \<and> (case execute_delete ''/a/x.txt'' (sample_executor False) (unlink_refused [''/b/x.txt'']) of
        (s1, ex1, w1) \<Rightarrow>
          s1 \<and> exists w1 ''/b/x.txt''
          \<and> \<not> fst (execute_delete ''/b/x.txt'' ex1 w1))"
  by code_simp

theorem delete_both_outcome_witness:
  "validate_file_paths (sample_row ''x.txt'' ''DELETE_BOTH'') DELETE_BOTH
       (unlink_refused [''/b/x.txt'']) = SUCCESS
   \<and> \<not> fst (process_action (sample_row ''x.txt'' ''DELETE_BOTH'') (sample_executor False)
       (unlink_refused [''/b/x.txt'']))
   \<and> errors (stats (fst (snd (process_action (sample_row ''x.txt'' ''DELETE_BOTH'')
       (sample_executor False) (unlink_refused [''/b/x.txt''])))))
     = errors (stats (sample_executor False)) + 1
   \<and> fs (snd (snd (process_action (sample_row ''x.txt'' ''DELETE_BOTH'')
       (sample_executor False) (unlink_refused [''/b/x.txt''])))) ''/b/x.txt''
     = fs (unlink_refused [''/b/x.txt'']) ''/b/x.txt''
   \<and> fs (snd (snd (execute_delete ''/a/x.txt'' (sample_executor False)
       (unlink_refused [''/b/x.txt''])))) ''/a/x.txt'' = None
   \<and> (\<exists>r. rollback_entries (fst (snd (process_action (sample_row ''x.txt'' ''DELETE_BOTH'')
              (sample_executor False) (unlink_refused [''/b/x.txt'']))))
            = rollback_entries (sample_executor False) @ [r]
          \<and> operation_type r = ''delete'' \<and> original_path r = ''/a/x.txt'')"
proof -
  let ?e = "sample_row ''x.txt'' ''DELETE_BOTH''"
  let ?ex = "sample_executor False"
  let ?w = "unlink_refused [''/b/x.txt'']"
  note st = delete_both_refused_steps
  have a: "ActionType_of (action ?e) = Some DELETE_BOTH"
    and v: "validate_file_paths ?e DELETE_BOTH ?w = SUCCESS"
    and o: "entry_original_path ?e = ''/a/x.txt''"
    and dp: "entry_duplicate_path ?e = ''/b/x.txt''"
    and eo: "exists ?w ''/a/x.txt''"
    using st by blast+
  have nd: "\<not> dry_run ?ex"
    by (simp add: sample_executor_def)
  obtain s1 ex1 w1 where d1: "execute_delete (entry_original_path ?e) ?ex ?w = (s1, ex1, w1)"
    using prod_cases3 by blast
  obtain s2 ex2 w2 where d2: "execute_delete (entry_duplicate_path ?e) ex1 w1 = (s2, ex2, w2)"
    using prod_cases3 by blast
  obtain ok ex' w' where pa: "process_action ?e ?ex ?w = (ok, ex', w')"
    using prod_cases3 by blast
  have s: "s1 \<and> exists w1 ''/b/x.txt'' \<and> \<not> s2"
    using st d1 d2 o dp by (simp add: case_prod_beta)
  have r: "ok = (s1 \<and> s2) \<and> w' = w2
       \<and> rollback_entries ex' = rollback_entries ex2
       \<and> errors (stats ex') = errors (stats ?ex) + (if s1 \<and> s2 then 0 else 1)
       \<and> fs w1 ''/a/x.txt'' = None
       \<and> (\<exists>r. rollback_entries ex1 = rollback_entries ?ex @ [r]
              \<and> operation_type r = ''delete'' \<and> original_path r = ''/a/x.txt'')
       \<and> fs w2 ''/b/x.txt'' = fs w1 ''/b/x.txt'' \<and> ex2 = ex1"
    using delete_both_outcome [OF a v d1 d2 pa] s nd eo o dp by simp
  have k: "fs w1 ''/b/x.txt'' = fs ?w ''/b/x.txt''"
  proof -
    have "fs (snd (snd (execute_delete ''/a/x.txt'' ?ex ?w))) ''/b/x.txt''
        = fs ?w ''/b/x.txt''"
      by code_simp
    then show ?thesis
      using d1 o by simp
  qed
  show ?thesis
    using r s v pa d1 o k by auto
qed

lemma delete_both_missing_original_runs:
  "\<not> exists duplicate_is_directory (entry_original_path (sample_row ''gone.txt'' ''DELETE_BOTH''))
   \<and> exists duplicate_is_directory (entry_duplicate_path (sample_row ''gone.txt'' ''DELETE_BOTH''))
   \<and> entry_duplicate_path (sample_row ''gone.txt'' ''DELETE_BOTH'') = ''/b/x.txt''
   \<and> writable duplicate_is_directory ''/a'' \<and> writable duplicate_is_directory ''/b''
   \<and> validate_file_paths (sample_row ''gone.txt'' ''DELETE_BOTH'') DELETE_BOTH
        duplicate_is_directory = SUCCESS
   \<and> (case process_action (sample_row ''gone.txt'' ''DELETE_BOTH'') (sample_executor False)
            duplicate_is_directory of
        (ok, ex', w') \<Rightarrow>
          \<not> ok \<and> rollback_entries ex' = [] \<and> errors (stats ex') = 1
          \<and> fs w' ''/b/x.txt'' = Some Dir)
   \<and> \<not> exists (unlink_refused [''/b/x.txt''])
         (entry_original_path (sample_row ''gone.txt'' ''DELETE_BOTH''))
   \<and> exists (unlink_refused [''/b/x.txt''])
         (entry_duplicate_path (sample_row ''gone.txt'' ''DELETE_BOTH''))
   \<and> validate_file_paths (sample_row ''gone.txt'' ''DELETE_BOTH'') DELETE_BOTH
        (unlink_refused [''/b/x.txt'']) = SUCCESS
   \<and> (case process_action (sample_row ''gone.txt'' ''DELETE_BOTH'') (sample_executor False)
            (unlink_refused [''/b/x.txt'']) of
        (ok, ex', w') \<Rightarrow>
          \<not> ok \<and> rollback_entries ex' = [] \<and> errors (stats ex') = 1
          \<and> fs w' ''/b/x.txt'' = Some (File (Bytes ''second'')))
   \<and> validate_file_paths (sample_row ''gone.txt'' ''DELETE_BOTH'') DELETE_BOTH
        sample_world = SUCCESS
   \<and> (case process_action (sample_row ''gone.txt'' ''DELETE_BOTH'') (sample_executor True)
            sample_world of
        (ok, ex', w') \<Rightarrow>
          ok \<and> rollback_entries ex' = []
          \<and> fs w' ''/b/x.txt'' = Some (File (Bytes ''second'')))"
  by code_simp

text \<open>
  C6, as amended. For a delete-both request whose two parent directories are reported
  writable, validation rejects exactly when neither path exists. When the original is
  missing and the duplicate exists, the deletion of the original is a success that does
  nothing, and what happens to the duplicate depends on the session and on the two file
  system steps. In a session that is not a dry run, if the backup copy and the removal
  both succeed, the duplicate is deleted and the ledger gains exactly one entry, for the
  duplicate. If the backup copy fails (the duplicate is a directory, the disk is full) or
  the removal is refused, the duplicate stays, the ledger gains nothing and the request
  counts as one error. In a dry run the request succeeds, nothing is deleted and the
  ledger gains nothing.
\<close>

theorem delete_both_one_missing:
  "(writable w (path_parent (entry_original_path e))
      \<and> writable w (path_parent (entry_duplicate_path e)) \<longrightarrow>
      (validate_file_paths e DELETE_BOTH w = ERROR) =
        (\<not> exists w (entry_original_path e) \<and> \<not> exists w (entry_duplicate_path e))
      \<and> validate_file_paths e DELETE_BOTH w \<noteq> CROSS_DEVICE)
   \<and> (action e = ''DELETE_BOTH'' \<and> \<not> dry_run ex
      \<and> \<not> exists w (entry_original_path e) \<and> exists w (entry_duplicate_path e)
      \<and> writable w (path_parent (entry_duplicate_path e))
      \<and> copy2 (entry_duplicate_path e)
           (path_join (backup_dir ex)
              (''deleted_'' @ path_name (entry_duplicate_path e) @ ''_'' @
               strftime_HMS (clock w (reads w))))
           (snd (now w)) = Some w2
      \<and> unlink (entry_duplicate_path e) w2 = Some w3
      \<and> process_action e ex w = (ok, ex', w') \<longrightarrow>
      ok \<and> execute_delete (entry_original_path e) ex w = (True, ex, w)
      \<and> fs w' (entry_duplicate_path e) = None
      \<and> rollback_entries ex' = rollback_entries ex @
           [\<lparr>timestamp = isoformat (clock w3 (reads w3)), operation_type = ''delete'',
             original_path = entry_duplicate_path e, target_path = [],
             backup_path = path_join (backup_dir ex)
               (''deleted_'' @ path_name (entry_duplicate_path e) @ ''_'' @
                strftime_HMS (clock w (reads w))),
             status = ''active''\<rparr>])
   \<and> (action e = ''DELETE_BOTH'' \<and> \<not> dry_run ex
      \<and> \<not> exists w (entry_original_path e) \<and> exists w (entry_duplicate_path e)
      \<and> writable w (path_parent (entry_duplicate_path e))
      \<and> (copy2 (entry_duplicate_path e)
           (path_join (backup_dir ex)
              (''deleted_'' @ path_name (entry_duplicate_path e) @ ''_'' @
               strftime_HMS (clock w (reads w))))
           (snd (now w)) = None
          \<or> copy2 (entry_duplicate_path e)
           (path_join (backup_dir ex)
              (''deleted_'' @ path_name (entry_duplicate_path e) @ ''_'' @
               strftime_HMS (clock w (reads w))))
           (snd (now w)) = Some w2
            \<and> unlink (entry_duplicate_path e) w2 = None)
      \<and> process_action e ex w = (ok, ex', w') \<longrightarrow>
      \<not> ok \<and> execute_delete (entry_original_path e) ex w = (True, ex, w)
      \<and> fs w' (entry_duplicate_path e) = fs w (entry_duplicate_path e)
      \<and> rollback_entries ex' = rollback_entries ex
      \<and> errors (stats ex') = errors (stats ex) + 1)
   \<and> (action e = ''DELETE_BOTH'' \<and> dry_run ex
      \<and> \<not> exists w (entry_original_path e) \<and> exists w (entry_duplicate_path e)
      \<and> writable w (path_parent (entry_duplicate_path e))
      \<and> process_action e ex w = (ok, ex', w') \<longrightarrow>
      ok \<and> w' = w \<and> rollback_entries ex' = rollback_entries ex)"
proof (intro conjI impI)
  assume "writable w (path_parent (entry_original_path e))
      \<and> writable w (path_parent (entry_duplicate_path e))"
  then show "(validate_file_paths e DELETE_BOTH w = ERROR) =
        (\<not> exists w (entry_original_path e) \<and> \<not> exists w (entry_duplicate_path e))"
    and "validate_file_paths e DELETE_BOTH w \<noteq> CROSS_DEVICE"
    by (auto simp: validate_file_paths_def Let_def)
next
  let ?orig = "entry_original_path e" and ?dup = "entry_duplicate_path e"
  let ?bp = "path_join (backup_dir ex)
       (''deleted_'' @ path_name ?dup @ ''_'' @ strftime_HMS (clock w (reads w)))"
  assume h: "action e = ''DELETE_BOTH'' \<and> \<not> dry_run ex
      \<and> \<not> exists w ?orig \<and> exists w ?dup \<and> writable w (path_parent ?dup)
      \<and> copy2 ?dup ?bp (snd (now w)) = Some w2
      \<and> unlink ?dup w2 = Some w3
      \<and> process_action e ex w = (ok, ex', w')"
  have a: "ActionType_of (action e) = Some DELETE_BOTH"
    using h by (simp add: ActionType_of_def)
  have v: "validate_file_paths e DELETE_BOTH w = SUCCESS"
    using h by (simp add: validate_file_paths_def Let_def)
  have d1: "execute_delete ?orig ex w = (True, ex, w)"
    using h by (simp add: execute_delete_def)
  have ex2: "exists (snd (now w)) ?dup"
    using h by (simp add: exists_def now_def)
  have d2: "execute_delete ?dup ex w =
      (True,
       ex\<lparr>rollback_entries := rollback_entries ex @
            [\<lparr>timestamp = isoformat (clock w3 (reads w3)), operation_type = ''delete'',
              original_path = ?dup, target_path = [], backup_path = ?bp,
              status = ''active''\<rparr>],
          stats := (stats ex)\<lparr>files_deleted := files_deleted (stats ex) + 1\<rparr>\<rparr>,
       snd (now w3))"
    using h ex2 by (simp add: execute_delete_def create_backup_def Let_def now_def)
  have "fs (snd (now w3)) ?dup = None"
    using h unlink_Some [of ?dup w2 w3] by (simp add: now_def)
  then show "ok"
    and "execute_delete ?orig ex w = (True, ex, w)"
    and "fs w' ?dup = None"
    and "rollback_entries ex' = rollback_entries ex @
           [\<lparr>timestamp = isoformat (clock w3 (reads w3)), operation_type = ''delete'',
             original_path = ?dup, target_path = [], backup_path = ?bp,
             status = ''active''\<rparr>]"
    using h a v d1 d2 by (auto simp: process_action_def tally_def)
next
  let ?orig = "entry_original_path e" and ?dup = "entry_duplicate_path e"
  let ?bp = "path_join (backup_dir ex)
       (''deleted_'' @ path_name ?dup @ ''_'' @ strftime_HMS (clock w (reads w)))"
  assume h: "action e = ''DELETE_BOTH'' \<and> \<not> dry_run ex
      \<and> \<not> exists w ?orig \<and> exists w ?dup \<and> writable w (path_parent ?dup)
      \<and> (copy2 ?dup ?bp (snd (now w)) = None
          \<or> copy2 ?dup ?bp (snd (now w)) = Some w2 \<and> unlink ?dup w2 = None)
      \<and> process_action e ex w = (ok, ex', w')"
  have a: "ActionType_of (action e) = Some DELETE_BOTH"
    using h by (simp add: ActionType_of_def)
  have v: "validate_file_paths e DELETE_BOTH w = SUCCESS"
    using h by (simp add: validate_file_paths_def Let_def)
  have d1: "execute_delete ?orig ex w = (True, ex, w)"
    using h by (simp add: execute_delete_def)
  have ex2: "exists (snd (now w)) ?dup"
    using h by (simp add: exists_def now_def)
  obtain v2 where d2: "execute_delete ?dup ex w = (False, ex, v2)"
    using h ex2
    by (auto simp: execute_delete_def create_backup_def Let_def now_def)
  have k: "fs v2 ?dup = fs w ?dup"
    using execute_delete_failure_keeps [OF d2] .
  show "\<not> ok"
    and "execute_delete ?orig ex w = (True, ex, w)"
    and "fs w' ?dup = fs w ?dup"
    and "rollback_entries ex' = rollback_entries ex"
    and "errors (stats ex') = errors (stats ex) + 1"
    using h a v d1 d2 k by (auto simp: process_action_def tally_def)
next
  assume h: "action e = ''DELETE_BOTH'' \<and> dry_run ex
      \<and> \<not> exists w (entry_original_path e) \<and> exists w (entry_duplicate_path e)
      \<and> writable w (path_parent (entry_duplicate_path e))
      \<and> process_action e ex w = (ok, ex', w')"
  have a: "ActionType_of (action e) = Some DELETE_BOTH"
    using h by (simp add: ActionType_of_def)
  have v: "validate_file_paths e DELETE_BOTH w = SUCCESS"
    using h by (simp add: validate_file_paths_def Let_def)
  show "ok" and "w' = w" and "rollback_entries ex' = rollback_entries ex"
    using h a v by (auto simp: process_action_def tally_def execute_delete_def)
qed

text \<open>
  The claim as stated fails inside its own conditions: with the original missing and a
  directory at the duplicate's path, validation passes, the backup copy raises, and the
  request ends with nothing deleted, no ledger entry and one error. The same holds when
  the removal of a duplicate file is refused; and in a dry run nothing is deleted and no
  entry is appended.
\<close>

theorem delete_both_one_missing_counterexample:
  "\<not> exists duplicate_is_directory (entry_original_path (sample_row ''gone.txt'' ''DELETE_BOTH''))
   \<and> exists duplicate_is_directory (entry_duplicate_path (sample_row ''gone.txt'' ''DELETE_BOTH''))
   \<and> validate_file_paths (sample_row ''gone.txt'' ''DELETE_BOTH'') DELETE_BOTH
        duplicate_is_directory = SUCCESS
   \<and> \<not> fst (process_action (sample_row ''gone.txt'' ''DELETE_BOTH'') (sample_executor False)
        duplicate_is_directory)
   \<and> rollback_entries (fst (snd (process_action (sample_row ''gone.txt'' ''DELETE_BOTH'')
        (sample_executor False) duplicate_is_directory))) = []
   \<and> fs (snd (snd (process_action (sample_row ''gone.txt'' ''DELETE_BOTH'')
        (sample_executor False) duplicate_is_directory))) ''/b/x.txt'' = Some Dir
   \<and> \<not> fst (process_action (sample_row ''gone.txt'' ''DELETE_BOTH'') (sample_executor False)
        (unlink_refused [''/b/x.txt'']))
   \<and> rollback_entries (fst (snd (process_action (sample_row ''gone.txt'' ''DELETE_BOTH'')
        (sample_executor False) (unlink_refused [''/b/x.txt''])))) = []
   \<and> fs (snd (snd (process_action (sample_row ''gone.txt'' ''DELETE_BOTH'')
        (sample_executor False) (unlink_refused [''/b/x.txt''])))) ''/b/x.txt''
       = Some (File (Bytes ''second''))
   \<and> rollback_entries (fst (snd (process_action (sample_row ''gone.txt'' ''DELETE_BOTH'')
        (sample_executor True) sample_world))) = []
   \<and> fs (snd (snd (process_action (sample_row ''gone.txt'' ''DELETE_BOTH'')
        (sample_executor True) sample_world))) ''/b/x.txt''
       = Some (File (Bytes ''second''))"
  using delete_both_missing_original_runs unfolding case_prod_beta by blast

theorem delete_both_one_missing_witness:
  "\<not> exists sample_world (entry_original_path (sample_row ''gone.txt'' ''DELETE_BOTH''))
   \<and> exists sample_world (entry_duplicate_path (sample_row ''gone.txt'' ''DELETE_BOTH''))
   \<and> validate_file_paths (sample_row ''gone.txt'' ''DELETE_BOTH'') DELETE_BOTH sample_world
       \<noteq> ERROR
   \<and> fst (process_action (sample_row ''gone.txt'' ''DELETE_BOTH'') (sample_executor False)
       sample_world)
   \<and> fs (snd (snd (process_action (sample_row ''gone.txt'' ''DELETE_BOTH'')
       (sample_executor False) sample_world))) ''/b/x.txt'' = None
   \<and> map original_path (rollback_entries (fst (snd (process_action
       (sample_row ''gone.txt'' ''DELETE_BOTH'') (sample_executor False) sample_world))))
     = [''/b/x.txt'']
   \<and> errors (stats (fst (snd (process_action (sample_row ''gone.txt'' ''DELETE_BOTH'')
       (sample_executor False) duplicate_is_directory))))
     = errors (stats (sample_executor False)) + 1
   \<and> snd (snd (process_action (sample_row ''gone.txt'' ''DELETE_BOTH'')
       (sample_executor True) sample_world)) = sample_world"
proof -
  let ?e = "sample_row ''gone.txt'' ''DELETE_BOTH''"
  let ?ex = "sample_executor False"
  let ?bp = "path_join (backup_dir ?ex)
       (''deleted_'' @ path_name (entry_duplicate_path ?e) @ ''_'' @
        strftime_HMS (clock sample_world (reads sample_world)))"
  have dup: "entry_duplicate_path ?e = ''/b/x.txt''"
    by code_simp
  have wr: "writable sample_world (path_parent (entry_original_path ?e))
      \<and> writable sample_world (path_parent (entry_duplicate_path ?e))"
    by (simp add: sample_world_def)
  have o: "\<not> exists sample_world (entry_original_path ?e)"
    by code_simp
  have d: "exists sample_world (entry_duplicate_path ?e)"
    by code_simp
  obtain w2 where c: "copy2 (entry_duplicate_path ?e) ?bp (snd (now sample_world)) = Some w2"
  proof -
    have "copy2 (entry_duplicate_path ?e) ?bp (snd (now sample_world)) \<noteq> None"
      by code_simp
    then show ?thesis using that by blast
  qed
  obtain w3 where u: "unlink (entry_duplicate_path ?e) w2 = Some w3"
  proof -
    have "fs w2 ''/b/x.txt'' = Some (File (Bytes ''second''))"
    proof -
      have "map_option (\<lambda>v. fs v ''/b/x.txt'')
              (copy2 (entry_duplicate_path ?e) ?bp (snd (now sample_world)))
            = Some (Some (File (Bytes ''second'')))"
        by code_simp
      then show ?thesis using c by simp
    qed
    moreover have "\<not> unlink_fails w2 ''/b/x.txt''"
    proof -
      have "map_option (\<lambda>v. unlink_fails v ''/b/x.txt'')
              (copy2 (entry_duplicate_path ?e) ?bp (snd (now sample_world)))
            = Some False"
        by code_simp
      then show ?thesis using c by simp
    qed
    ultimately have "unlink (entry_duplicate_path ?e) w2 \<noteq> None"
      by (simp add: unlink_def dup)
    then show ?thesis using that by blast
  qed
  obtain ok ex' w' where pa: "process_action ?e ?ex sample_world = (ok, ex', w')"
    using prod_cases3 by blast
  have h: "action ?e = ''DELETE_BOTH'' \<and> \<not> dry_run ?ex"
    by (simp add: sample_row_def sample_executor_def)
  have r: "validate_file_paths ?e DELETE_BOTH sample_world \<noteq> ERROR \<and> ok
      \<and> fs w' ''/b/x.txt'' = None
      \<and> map original_path (rollback_entries ex') =
          map original_path (rollback_entries ?ex) @ [''/b/x.txt'']"
    using delete_both_one_missing [of sample_world ?e ?ex w2 w3 ok ex' w'] wr o d c u pa h dup
    by simp
  have emp: "rollback_entries ?ex = []"
    by (simp add: sample_executor_def)
  let ?v = duplicate_is_directory
  note runs = delete_both_missing_original_runs
  have dv: "\<not> exists ?v (entry_original_path ?e)" "exists ?v (entry_duplicate_path ?e)"
    "writable ?v (path_parent (entry_duplicate_path ?e))"
    using runs dup by (simp_all add: duplicate_is_directory_def sample_world_def)
  have cv: "copy2 (entry_duplicate_path ?e)
      (path_join (backup_dir ?ex)
        (''deleted_'' @ path_name (entry_duplicate_path ?e) @ ''_'' @
         strftime_HMS (clock ?v (reads ?v))))
      (snd (now ?v)) = None"
    by code_simp
  obtain ok2 ex2 v' where p2: "process_action ?e ?ex ?v = (ok2, ex2, v')"
    using prod_cases3 by blast
  have f: "errors (stats ex2) = errors (stats ?ex) + 1"
    using delete_both_one_missing [of ?v ?e ?ex w2 w3 ok2 ex2 v'] dv cv p2 h
    by simp
  let ?dry = "sample_executor True"
  obtain ok3 ex3 u' where p3: "process_action ?e ?dry sample_world = (ok3, ex3, u')"
    using prod_cases3 by blast
  have hd: "action ?e = ''DELETE_BOTH'' \<and> dry_run ?dry"
    by (simp add: sample_row_def sample_executor_def)
  have g: "u' = sample_world"
    using delete_both_one_missing [of sample_world ?e ?dry w2 w3 ok3 ex3 u'] wr o d p3 hd
    by simp
  show ?thesis
    using r pa o d emp f p2 g p3 by simp
qed

lemma unwritable_cross_device_run:
  "stat_dev (two_devices False) (entry_original_path (sample_row ''x.txt'' ''HARDLINK_DUPLICATE''))
     = Some 1
   \<and> stat_dev (two_devices False)
       (path_parent (entry_duplicate_path (sample_row ''x.txt'' ''HARDLINK_DUPLICATE'')))
     = Some 2
   \<and> validate_file_paths (sample_row ''x.txt'' ''HARDLINK_DUPLICATE'') HARDLINK_DUPLICATE
       (two_devices False) = ERROR
   \<and> (case process_action (sample_row ''x.txt'' ''HARDLINK_DUPLICATE'') (sample_executor False)
          (two_devices False) of
        (ok, ex', w') \<Rightarrow> \<not> ok \<and> errors (stats ex') = 1 \<and> skipped (stats ex') = 0)"
  by code_simp

text \<open>
  C7, as amended. For a hardlink request whose two files exist, whose parent directories
  are reported writable, and whose two sides (the original, and the directory of the
  duplicate) report different devices, validation returns the cross-device outcome, and
  the request is counted as skipped and as nothing else: the world, the ledger and the
  error count stay as they were.
\<close>

theorem cross_device_skipped:
  assumes "ActionType_of (action e) = Some a"
    and "a = HARDLINK_ORIGINAL \<or> a = HARDLINK_DUPLICATE"
    and "exists w (entry_original_path e)" and "exists w (entry_duplicate_path e)"
    and "writable w (path_parent (entry_original_path e))"
    and "writable w (path_parent (entry_duplicate_path e))"
    and "stat_dev w (entry_original_path e) = Some d1"
    and "stat_dev w (path_parent (entry_duplicate_path e)) = Some d2"
    and "d1 \<noteq> d2"
  shows "validate_file_paths e a w = CROSS_DEVICE
       \<and> process_action e ex w =
           (False, ex\<lparr>stats := (stats ex)\<lparr>skipped := skipped (stats ex) + 1\<rparr>\<rparr>, w)"
proof -
  have v: "validate_file_paths e a w = CROSS_DEVICE"
    using assms(2-9) by (auto simp: validate_file_paths_def Let_def)
  then show ?thesis
    using assms(1) by (simp add: process_action_def)
qed

text \<open>
  The claim as stated fails when a parent directory is not reported writable: the two
  sides report devices 1 and 2, and the request is rejected and counted as an error.
\<close>

theorem cross_device_skipped_counterexample:
  "stat_dev (two_devices False) (entry_original_path (sample_row ''x.txt'' ''HARDLINK_DUPLICATE''))
     = Some 1
   \<and> stat_dev (two_devices False)
       (path_parent (entry_duplicate_path (sample_row ''x.txt'' ''HARDLINK_DUPLICATE'')))
     = Some 2
   \<and> validate_file_paths (sample_row ''x.txt'' ''HARDLINK_DUPLICATE'') HARDLINK_DUPLICATE
       (two_devices False) = ERROR
   \<and> errors (stats (fst (snd (process_action (sample_row ''x.txt'' ''HARDLINK_DUPLICATE'')
       (sample_executor False) (two_devices False))))) = 1
   \<and> skipped (stats (fst (snd (process_action (sample_row ''x.txt'' ''HARDLINK_DUPLICATE'')
       (sample_executor False) (two_devices False))))) = 0"
  using unwritable_cross_device_run by (simp add: case_prod_beta)

theorem cross_device_skipped_witness:
  "validate_file_paths (sample_row ''x.txt'' ''HARDLINK_DUPLICATE'') HARDLINK_DUPLICATE
       (two_devices True) = CROSS_DEVICE
   \<and> process_action (sample_row ''x.txt'' ''HARDLINK_DUPLICATE'') (sample_executor False)
       (two_devices True)
     = (False,
        (sample_executor False)\<lparr>stats := (stats (sample_executor False))\<lparr>skipped :=
           skipped (stats (sample_executor False)) + 1\<rparr>\<rparr>,
        two_devices True)"
proof -
  let ?e = "sample_row ''x.txt'' ''HARDLINK_DUPLICATE''"
  have a: "ActionType_of (action ?e) = Some HARDLINK_DUPLICATE"
    by (simp add: sample_row_def ActionType_of_def)
  have 1: "exists (two_devices True) (entry_original_path ?e)"
    and 2: "exists (two_devices True) (entry_duplicate_path ?e)"
    and 3: "writable (two_devices True) (path_parent (entry_original_path ?e))"
    and 4: "writable (two_devices True) (path_parent (entry_duplicate_path ?e))"
    and 5: "stat_dev (two_devices True) (entry_original_path ?e) = Some 1"
    and 6: "stat_dev (two_devices True) (path_parent (entry_duplicate_path ?e)) = Some 2"
    by code_simp+
  show ?thesis
    using cross_device_skipped [OF a _ 1 2 3 4 5 6, of "sample_executor False"] by simp
qed

















lemma delete_both_same_name_run:
  "(case process_action (sample_row ''x.txt'' ''DELETE_BOTH'') (sample_executor False)
          sample_world of
      (ok, ex', w') \<Rightarrow>
        ok
        \<and> map original_path (rollback_entries ex') = [''/a/x.txt'', ''/b/x.txt'']
        \<and> map backup_path (rollback_entries ex') =
            [''/work/backups/deleted_x.txt_100000'', ''/work/backups/deleted_x.txt_100000'']
        \<and> fs w' ''/work/backups/deleted_x.txt_100000'' = Some (File (Bytes ''second'')))"
  by code_simp

text \<open>
  C5. The name of a backup copy is made of the operation's label, the base name of the file
  and the time of day to the second. A delete-both request for two files of the same name
  in two folders, handled within one second, gives both backups the same name: the second
  copy replaces the first, and both ledger entries point at the copy of the second file.
\<close>

theorem backup_name_collision:
  "fs sample_world ''/a/x.txt'' = Some (File (Bytes ''first''))
   \<and> fs sample_world ''/b/x.txt'' = Some (File (Bytes ''second''))
   \<and> fst (process_action (sample_row ''x.txt'' ''DELETE_BOTH'') (sample_executor False)
        sample_world)
   \<and> map original_path (rollback_entries (fst (snd (process_action
        (sample_row ''x.txt'' ''DELETE_BOTH'') (sample_executor False) sample_world))))
     = [''/a/x.txt'', ''/b/x.txt'']
   \<and> map backup_path (rollback_entries (fst (snd (process_action
        (sample_row ''x.txt'' ''DELETE_BOTH'') (sample_executor False) sample_world))))
     = [''/work/backups/deleted_x.txt_100000'', ''/work/backups/deleted_x.txt_100000'']
   \<and> fs (snd (snd (process_action (sample_row ''x.txt'' ''DELETE_BOTH'')
        (sample_executor False) sample_world))) ''/work/backups/deleted_x.txt_100000''
     = Some (File (Bytes ''second''))"
proof -
  have "fs sample_world ''/a/x.txt'' = Some (File (Bytes ''first''))
      \<and> fs sample_world ''/b/x.txt'' = Some (File (Bytes ''second''))"
    by (simp add: sample_world_def sample_tree_def)
  then show ?thesis
    using delete_both_same_name_run by (simp add: case_prod_beta)
qed

section \<open>Facts about the rollback utility\<close>

text \<open>A comprehension that does not raise keeps the elements its condition accepts.\<close>

lemma filter_ops_Inr:
  "filter_ops c xs = Inr ys \<Longrightarrow> ys = filter (\<lambda>x. c x = Inr True) xs"
proof (induction xs arbitrary: ys)
  case Nil
  then show ?case by simp
next
  case (Cons x xs)
  then show ?case
    by (auto split: sum.splits if_splits)
qed

lemma filter_ops_total:
  "list_all (\<lambda>x. \<not> isl (c x)) xs \<Longrightarrow> filter_ops c xs = Inr (filter (\<lambda>x. c x = Inr True) xs)"
proof (induction xs)
  case Nil
  then show ?case by simp
next
  case (Cons x xs)
  then obtain b where "c x = Inr b"
    by (cases "c x") auto
  then show ?case
    using Cons by (cases b) auto
qed

text \<open>
  One call of \<open>rollback_operation\<close>: an operation of unknown type fails, is counted as
  skipped and changes nothing else; any other operation leaves the counters alone.
\<close>

lemma rollback_operation_result:
  assumes "rollback_operation rb operation w = Inr (ok, rb', w')"
  shows "(unrecognized operation \<longrightarrow>
            \<not> ok \<and> w' = w
            \<and> rb' = rb\<lparr>rb_stats := (rb_stats rb)\<lparr>skipped_operations :=
                       skipped_operations (rb_stats rb) + 1\<rparr>\<rparr>)
       \<and> (\<not> unrecognized operation \<longrightarrow> rb' = rb)"
proof (cases "dict_get operation ''operation_type'' (JStr [])")
  case (Inl e)
  then show ?thesis
    using assms by (simp add: rollback_operation_def)
next
  case (Inr ty)
  consider (del) "ty = JStr ''delete''"
    | (link) "ty \<noteq> JStr ''delete''" "ty \<in> set [JStr ''softlink'', JStr ''hardlink'']"
    | (other) "ty \<noteq> JStr ''delete''" "ty \<notin> set [JStr ''softlink'', JStr ''hardlink'']"
    by blast
  then show ?thesis
  proof cases
    case del
    then show ?thesis
      using assms Inr
      by (auto simp: rollback_operation_def unrecognized_def split: sum.splits)
  next
    case link
    then have "\<not> unrecognized operation"
      using Inr by (auto simp: unrecognized_def)
    moreover have "rb' = rb"
      using assms Inr link
      by (auto simp: rollback_operation_def split: sum.splits)
    ultimately show ?thesis by simp
  next
    case other
    then have "unrecognized operation"
      using Inr by (auto simp: unrecognized_def)
    moreover have "\<not> ok \<and> w' = w
        \<and> rb' = rb\<lparr>rb_stats := (rb_stats rb)\<lparr>skipped_operations :=
                   skipped_operations (rb_stats rb) + 1\<rparr>\<rparr>"
      using assms Inr other
      by (auto simp: rollback_operation_def)
    ultimately show ?thesis by simp
  qed
qed

text \<open>
  The loop, when it runs to its end: every operation was handed to \<open>rollback_operation\<close>
  once, in the order of the list, and was counted as a success or as a failure.
\<close>

lemma rollback_loop_completed:
  "rollback_loop ops rb w = (None, rb', w') \<Longrightarrow>
     attempted rb' = attempted rb @ ops
     \<and> rb_dry_run rb' = rb_dry_run rb
     \<and> total_operations (rb_stats rb') = total_operations (rb_stats rb)
     \<and> successful_rollbacks (rb_stats rb') + failed_rollbacks (rb_stats rb') =
         successful_rollbacks (rb_stats rb) + failed_rollbacks (rb_stats rb) + length ops
     \<and> skipped_operations (rb_stats rb') =
         skipped_operations (rb_stats rb) + length (filter unrecognized ops)
     \<and> failed_rollbacks (rb_stats rb) + length (filter unrecognized ops)
         \<le> failed_rollbacks (rb_stats rb')"
proof (induction ops arbitrary: rb w)
  case Nil
  then show ?case by simp
next
  case (Cons operation rest)
  let ?rb = "rb\<lparr>attempted := attempted rb @ [operation]\<rparr>"
  from Cons.prems obtain v where g: "dict_get operation ''operation_type'' JNull = Inr v"
    by (cases "dict_get operation ''operation_type'' JNull") auto
  from Cons.prems g obtain ok rb1 w1 where
    r: "rollback_operation ?rb operation w = Inr (ok, rb1, w1)"
    by (cases "rollback_operation ?rb operation w") auto
  have l: "rollback_loop rest (count_result ok rb1) w1 = (None, rb', w')"
    using Cons.prems g r by simp
  note ih = Cons.IH [OF l]
  show ?case
  proof (cases "unrecognized operation")
    case True
    then have "\<not> ok" and
      "rb1 = ?rb\<lparr>rb_stats := (rb_stats ?rb)\<lparr>skipped_operations :=
                  skipped_operations (rb_stats ?rb) + 1\<rparr>\<rparr>"
      using rollback_operation_result [OF r] by auto
    then show ?thesis
      using ih True by (simp add: count_result_def)
  next
    case False
    then have "rb1 = ?rb"
      using rollback_operation_result [OF r] by auto
    then show ?thesis
      using ih False by (cases ok) (simp_all add: count_result_def)
  qed
qed

lemma subscript_truthy: "subscript d k = Inr x \<Longrightarrow> truthy d"
  by (cases d) (auto simp: subscript_def truthy_def split: option.splits)

lemma dict_get_subscript:
  "dict_get v k dflt = Inr x \<Longrightarrow> x \<noteq> dflt \<Longrightarrow> subscript v k = Inr x"
  by (cases v) (auto simp: dict_get_def subscript_def split: option.splits)

text \<open>Over readable entries the loop runs to its end.\<close>

lemma rollback_loop_readable:
  assumes "list_all readable ops"
  shows "fst (rollback_loop ops rb w) = None"
  using assms
proof (induction ops arbitrary: rb w)
  case Nil
  then show ?case by simp
next
  case (Cons operation rest)
  let ?rb = "rb\<lparr>attempted := attempted rb @ [operation]\<rparr>"
  from Cons.prems obtain ty where ty: "dict_get operation ''operation_type'' (JStr []) = Inr ty"
    by (cases "dict_get operation ''operation_type'' (JStr [])") (auto simp: readable_def)
  then obtain v where g: "dict_get operation ''operation_type'' JNull = Inr v"
    by (cases operation) (auto simp: dict_get_def)
  have "\<not> isl (rollback_operation ?rb operation w)"
  proof (cases "ty = JStr ''delete''")
    case True
    then have "\<not> isl (Path_at operation ''original_path'')"
      "\<not> isl (Path_at operation ''backup_path'')"
      using Cons.prems ty by (auto simp: readable_def)
    then show ?thesis
      using ty True
      by (auto simp: rollback_operation_def rollback_delete_operation_def
          split: sum.splits option.splits)
  next
    case False
    show ?thesis
    proof (cases "ty \<in> set [JStr ''softlink'', JStr ''hardlink'']")
      case True
      then have "ty \<noteq> JStr []" by auto
      then have s: "subscript operation ''operation_type'' = Inr ty"
        using dict_get_subscript [OF ty] by simp
      have "\<not> isl (Path_at operation ''target_path'')"
        "\<not> isl (Path_at operation ''backup_path'')"
        using Cons.prems ty True False by (auto simp: readable_def)
      then show ?thesis
        using ty True False s
        by (auto simp: rollback_operation_def rollback_link_operation_def
            split: sum.splits option.splits)
    next
      case other: False
      then show ?thesis
        using ty False by (simp add: rollback_operation_def)
    qed
  qed
  then obtain ok rb1 w1 where
    r: "rollback_operation ?rb operation w = Inr (ok, rb1, w1)"
    by (cases "rollback_operation ?rb operation w") auto
  have "list_all readable rest"
    using Cons.prems by simp
  from Cons.IH [OF this] show ?case
    using g r by simp
qed

text \<open>
  On entries whose timestamps can be compared no filter raises, and the three together
  keep what \<open>selected\<close> describes.
\<close>

lemma stamped_filters:
  assumes "stamped operation"
  shows "is_after b operation = Inr (b < timestamp_of operation)"
    and "is_before b operation = Inr (timestamp_of operation < b)"
    and "type_selected ts operation =
           Inr (case dict_get operation ''operation_type'' JNull of
                  Inr (JStr s) \<Rightarrow> s \<in> set ts
                | _ \<Rightarrow> False)"
proof -
  from assms obtain kvs where d: "operation = JDict kvs"
    by (cases operation) (auto simp: stamped_def dict_get_def)
  show "is_after b operation = Inr (b < timestamp_of operation)"
    using assms d
    by (auto simp: stamped_def is_after_def timestamp_of_def dict_get_def
        split: option.splits json.splits)
  show "is_before b operation = Inr (timestamp_of operation < b)"
    using assms d
    by (auto simp: stamped_def is_before_def timestamp_of_def dict_get_def
        split: option.splits json.splits)
  show "type_selected ts operation =
           Inr (case dict_get operation ''operation_type'' JNull of
                  Inr (JStr s) \<Rightarrow> s \<in> set ts
                | _ \<Rightarrow> False)"
    using d by (auto simp: type_selected_def dict_get_def split: option.splits json.splits)
qed

lemma filter_ops_stamped:
  assumes "list_all stamped ops" and "\<And>x. stamped x \<Longrightarrow> c x = Inr (P x)"
  shows "filter_ops c ops = Inr (filter P ops)"
  using assms(1)
proof (induction ops)
  case Nil
  then show ?case by simp
next
  case (Cons x xs)
  then show ?case
    using assms(2) [of x] by simp
qed

lemma select_operations_stamped:
  assumes "list_all stamped ops"
  shows "select_operations (JList ops) operation_types after before =
           Inr (filter (selected operation_types after before) ops)"
proof -
  let ?T = "selected operation_types None None"
  let ?A = "selected None after None"
  let ?B = "selected None None before"
  have keep: "list_all stamped (filter P ops)" for P
    using assms by (simp add: list_all_iff)
  have 1: "by_type operation_types ops = Inr (filter ?T ops)"
  proof (cases operation_types)
    case None
    then show ?thesis by (simp add: by_type_def selected_def)
  next
    case (Some ts)
    show ?thesis
    proof (cases "ts = []")
      case True
      then show ?thesis using Some by (simp add: by_type_def selected_def)
    next
      case False
      have "filter_ops (type_selected ts) ops = Inr (filter ?T ops)"
        using assms
        by (rule filter_ops_stamped) (simp add: stamped_filters selected_def Some False)
      then show ?thesis using Some False by (simp add: by_type_def)
    qed
  qed
  have 2: "by_after after xs = Inr (filter ?A xs)" if "list_all stamped xs" for xs
  proof (cases after)
    case None
    then show ?thesis by (simp add: by_after_def selected_def)
  next
    case (Some b)
    show ?thesis
    proof (cases "b = []")
      case True
      then show ?thesis using Some by (simp add: by_after_def selected_def)
    next
      case False
      have "filter_ops (is_after b) xs = Inr (filter ?A xs)"
        using that
        by (rule filter_ops_stamped) (simp add: stamped_filters selected_def Some False)
      then show ?thesis using Some False by (simp add: by_after_def)
    qed
  qed
  have 3: "by_before before xs = Inr (filter ?B xs)" if "list_all stamped xs" for xs
  proof (cases before)
    case None
    then show ?thesis by (simp add: by_before_def selected_def)
  next
    case (Some b)
    show ?thesis
    proof (cases "b = []")
      case True
      then show ?thesis using Some by (simp add: by_before_def selected_def)
    next
      case False
      have "filter_ops (is_before b) xs = Inr (filter ?B xs)"
        using that
        by (rule filter_ops_stamped) (simp add: stamped_filters selected_def Some False)
      then show ?thesis using Some False by (simp add: by_before_def)
    qed
  qed
  have all: "selected operation_types after before x = (?T x \<and> ?A x \<and> ?B x)" for x
    by (simp add: selected_def)
  have "select_operations (JList ops) operation_types after before =
      Inr (filter ?B (filter ?A (filter ?T ops)))"
    using 1 2 [OF keep] 3 [OF keep [of "\<lambda>x. ?T x \<and> ?A x"]]
    by (simp add: select_operations_def py_iter_def)
  also have "filter ?B (filter ?A (filter ?T ops))
      = filter (selected operation_types after before) ops"
    by (induction ops) (auto simp: all)
  finally show ?thesis .
qed

text \<open>
  A run that completes has handed the selected entries to \<open>rollback_operation\<close> in the
  reverse of their order in the ledger, each once, whatever the single results were.
\<close>

lemma completed_run_reversed:
  assumes "execute_rollback rb file operation_types after before w = (Exit code, rb', w')"
    and "load_rollback_data w file = Some data"
    and "subscript data ''operations'' = Inr operations"
    and "select_operations operations operation_types after before = Inr ops"
  shows "attempted rb' = attempted rb @ rev ops"
proof (cases "ops = []")
  case True
  then show ?thesis
    using assms subscript_truthy [OF assms(3)]
    by (auto simp: execute_rollback_def)
next
  case False
  let ?rb = "rb\<lparr>rb_stats := (rb_stats rb)\<lparr>total_operations := length ops\<rparr>\<rparr>"
  obtain r rb1 w1 where l: "rollback_loop (rev ops) ?rb w = (r, rb1, w1)"
    using prod_cases3 by blast
  have t: "truthy data"
    using subscript_truthy [OF assms(3)] .
  have "r = None \<and> rb1 = rb'"
    using assms False l t by (cases r) (auto simp: execute_rollback_def)
  then have "rollback_loop (rev ops) ?rb w = (None, rb', w1)"
    using l by simp
  from rollback_loop_completed [OF this] show ?thesis
    by simp
qed

text \<open>
  A run over a loaded list of readable entries completes: it returns 0 or 2, having
  attempted what the filters select.
\<close>

lemma readable_run_completes:
  assumes "load_rollback_data w file = Some data"
    and "subscript data ''operations'' = Inr (JList ops)"
    and "list_all readable ops"
  shows "\<exists>code rb' w'.
           execute_rollback rb file operation_types after before w = (Exit code, rb', w')
           \<and> (code = 0 \<or> code = 2)
           \<and> attempted rb' =
               attempted rb @ rev (filter (selected operation_types after before) ops)"
proof -
  let ?sel = "filter (selected operation_types after before) ops"
  have st: "list_all stamped ops"
    using assms(3) by (simp add: list_all_iff readable_def)
  have s: "select_operations (JList ops) operation_types after before = Inr ?sel"
    using select_operations_stamped [OF st] .
  have t: "truthy data"
    using subscript_truthy [OF assms(2)] .
  show ?thesis
  proof (cases "?sel = []")
    case True
    then have "execute_rollback rb file operation_types after before w = (Exit 0, rb, w)"
      using assms(1,2) s t by (simp add: execute_rollback_def)
    then show ?thesis
      using True by simp
  next
    case False
    let ?rb = "rb\<lparr>rb_stats := (rb_stats rb)\<lparr>total_operations := length ?sel\<rparr>\<rparr>"
    have "list_all readable (rev ?sel)"
      using assms(3) by (simp add: list_all_iff)
    from rollback_loop_readable [OF this]
    have "fst (rollback_loop (rev ?sel) ?rb w) = None" .
    then obtain rb1 w1 where l: "rollback_loop (rev ?sel) ?rb w = (None, rb1, w1)"
      by (cases "rollback_loop (rev ?sel) ?rb w") auto
    have a: "attempted rb1 = attempted rb @ rev ?sel"
      using rollback_loop_completed [OF l] by simp
    have "execute_rollback rb file operation_types after before w
        = (Exit (if failed_rollbacks (rb_stats rb1) = 0 then 0 else 2), rb1, w1)"
      using assms(1,2) s t False l by (simp add: execute_rollback_def)
    then show ?thesis
      using a by auto
  qed
qed

text \<open>
  When the run iterates over values that are no objects (the characters of a string, the
  keys of an object, the numbers of a list), the first \<^verbatim>\<open>.get\<close> on one of them raises: in
  a filter, or at the head of the loop.
\<close>

lemma filter_ops_no_dict:
  assumes "xs \<noteq> []" and "list_all (\<lambda>x. \<not> is_dict x) xs"
    and "\<And>x. \<not> is_dict x \<Longrightarrow> c x = Inl AttributeError"
  shows "filter_ops c xs = Inl AttributeError"
  using assms by (cases xs) auto

lemma no_dict_run_raises:
  assumes "load_rollback_data w file = Some data"
    and "subscript data ''operations'' = Inr operations"
    and "py_iter operations = Inr xs"
    and "xs \<noteq> []" and "list_all (\<lambda>x. \<not> is_dict x) xs"
  shows "fst (execute_rollback rb file operation_types after before w) = Raised AttributeError
       \<and> snd (snd (execute_rollback rb file operation_types after before w)) = w
       \<and> attempted (fst (snd (execute_rollback rb file operation_types after before w)))
           = attempted rb"
proof -
  have t: "truthy data"
    using subscript_truthy [OF assms(2)] .
  have g: "dict_get x k dflt = Inl AttributeError" if "\<not> is_dict x" for x k dflt
    using that by (cases x) (simp_all add: dict_get_def is_dict_def)
  have ty: "by_type operation_types xs = Inr xs \<or> by_type operation_types xs = Inl AttributeError"
    using filter_ops_no_dict [OF assms(4,5), of "type_selected ts" for ts]
    by (auto simp: by_type_def type_selected_def g split: option.splits)
  have af: "by_after after xs = Inr xs \<or> by_after after xs = Inl AttributeError"
    using filter_ops_no_dict [OF assms(4,5), of "is_after b" for b]
    by (auto simp: by_after_def is_after_def g split: option.splits)
  have be: "by_before before xs = Inr xs \<or> by_before before xs = Inl AttributeError"
    using filter_ops_no_dict [OF assms(4,5), of "is_before b" for b]
    by (auto simp: by_before_def is_before_def g split: option.splits)
  have sel: "select_operations operations operation_types after before = Inr xs
      \<or> select_operations operations operation_types after before = Inl AttributeError"
    using ty af be assms(3) by (auto simp: select_operations_def)
  let ?rb = "rb\<lparr>rb_stats := (rb_stats rb)\<lparr>total_operations := length xs\<rparr>\<rparr>"
  have "rev xs \<noteq> []" and "list_all (\<lambda>x. \<not> is_dict x) (rev xs)"
    using assms(4,5) by (simp_all add: list_all_iff)
  then obtain x ys where l: "rev xs = x # ys" "\<not> is_dict x"
    by (cases "rev xs") auto
  have loop: "rollback_loop (rev xs) ?rb w = (Some AttributeError, ?rb, w)"
    using l by (simp add: g)
  from sel show ?thesis
  proof
    assume "select_operations operations operation_types after before = Inr xs"
    then have "execute_rollback rb file operation_types after before w
        = (Raised AttributeError, ?rb, w)"
      using assms(1,2,4) t loop by (simp add: execute_rollback_def)
    then show ?thesis by simp
  next
    assume "select_operations operations operation_types after before = Inl AttributeError"
    then have "execute_rollback rb file operation_types after before w
        = (Raised AttributeError, rb, w)"
      using assms(1,2) t by (simp add: execute_rollback_def)
    then show ?thesis by simp
  qed
qed
lemma numeric_operations_run:
  "load_rollback_data
      (ledger_world (JDict [(''timestamp'', JStr ''2025-08-09T09:30:00''),
                            (''operations'', JNum 5)]))
      ''/work/duplicate_rollback.json'' = None
   \<and> (case execute_rollback (new_rollback False) ''/work/duplicate_rollback.json''
            None None None
            (ledger_world (JDict [(''timestamp'', JStr ''2025-08-09T09:30:00''),
                                  (''operations'', JNum 5)])) of
        (out, rb', w') \<Rightarrow> out = Exit 1 \<and> attempted rb' = [])"
  by code_simp

text \<open>
  C8, as amended. The loader checks the two top-level fields \<^verbatim>\<open>timestamp\<close> and
  \<^verbatim>\<open>operations\<close>, and takes the length of \<^verbatim>\<open>operations\<close>: a JSON object with both fields
  whose \<^verbatim>\<open>operations\<close> has a length (a list, a string or an object) is loaded, whatever
  else it holds or lacks. What follows loading depends on \<^verbatim>\<open>operations\<close>: over a list of
  entries the utility can read (objects, the timestamp absent or a string, with the paths
  their handler looks up) the run returns 0 or 2, having attempted the selected entries
  last to first; when \<^verbatim>\<open>operations\<close> is a non-empty string or object, or a non-empty
  list that holds no object, the run ends with an uncaught \<^verbatim>\<open>AttributeError\<close>, nothing
  being attempted or changed. When the file is missing, is not JSON, or holds a value
  that is not an object with both fields, or when \<^verbatim>\<open>operations\<close> has no length, loading
  fails, the run ends with exit code 1 and nothing is reversed.
\<close>

theorem loader_required_fields:
  "(read_file w file = Some (Json (JDict kvs)) \<and> \<not> open_fails w file
      \<and> map_of kvs ''timestamp'' = Some ts \<and> map_of kvs ''operations'' = Some operations
      \<and> py_len operations = Some n \<longrightarrow>
      load_rollback_data w file = Some (JDict kvs)
      \<and> (operations = JList ops \<and> list_all readable ops \<longrightarrow>
           (\<exists>code rb' w'.
              execute_rollback rb file operation_types after before w = (Exit code, rb', w')
              \<and> (code = 0 \<or> code = 2)
              \<and> attempted rb' =
                  attempted rb @ rev (filter (selected operation_types after before) ops)))
      \<and> ((operations = JStr s \<and> s \<noteq> []) \<or> (operations = JDict d \<and> d \<noteq> [])
          \<or> (operations = JList ops \<and> ops \<noteq> [] \<and> list_all (\<lambda>x. \<not> is_dict x) ops) \<longrightarrow>
           fst (execute_rollback rb file operation_types after before w)
             = Raised AttributeError
           \<and> snd (snd (execute_rollback rb file operation_types after before w)) = w
           \<and> attempted (fst (snd (execute_rollback rb file operation_types after before w)))
               = attempted rb))
   \<and> (read_file w file = Some (Json (JDict kvs))
      \<and> map_of kvs ''operations'' = Some operations \<and> py_len operations = None \<longrightarrow>
      load_rollback_data w file = None)
   \<and> ((\<not> exists w file
       \<or> (\<exists>s. read_file w file = Some (Bytes s))
       \<or> (\<exists>v. read_file w file = Some (Json v)
            \<and> (\<nexists>kvs. v = JDict kvs \<and> map_of kvs ''timestamp'' \<noteq> None
                       \<and> map_of kvs ''operations'' \<noteq> None))) \<longrightarrow>
      load_rollback_data w file = None)
   \<and> (load_rollback_data w file = None \<longrightarrow>
      execute_rollback rb file operation_types after before w = (Exit 1, rb, w))"
proof (intro conjI impI)
  assume h: "read_file w file = Some (Json (JDict kvs)) \<and> \<not> open_fails w file
      \<and> map_of kvs ''timestamp'' = Some ts \<and> map_of kvs ''operations'' = Some operations
      \<and> py_len operations = Some n"
  then have e: "exists w file"
    by (auto simp: read_file_def exists_def split: option.splits)
  have k: "''timestamp'' \<in> set (map fst kvs)" "''operations'' \<in> set (map fst kvs)"
    using h by (auto dest: map_of_SomeD intro: rev_image_eqI)
  show l: "load_rollback_data w file = Some (JDict kvs)"
    using h e k by (simp add: load_rollback_data_def py_in_def subscript_def dict_get_def)
  have sub: "subscript (JDict kvs) ''operations'' = Inr operations"
    using h by (simp add: subscript_def)
  {
    assume "operations = JList ops \<and> list_all readable ops"
    then show "\<exists>code rb' w'.
              execute_rollback rb file operation_types after before w = (Exit code, rb', w')
              \<and> (code = 0 \<or> code = 2)
              \<and> attempted rb' =
                  attempted rb @ rev (filter (selected operation_types after before) ops)"
      using readable_run_completes [OF l, of ops rb operation_types after before] sub
      by simp
  }
  {
    assume o: "(operations = JStr s \<and> s \<noteq> []) \<or> (operations = JDict d \<and> d \<noteq> [])
          \<or> (operations = JList ops \<and> ops \<noteq> [] \<and> list_all (\<lambda>x. \<not> is_dict x) ops)"
    then obtain xs where xs: "py_iter operations = Inr xs" "xs \<noteq> []"
      "list_all (\<lambda>x. \<not> is_dict x) xs"
      by (auto simp: py_iter_def list_all_iff is_dict_def)
    from no_dict_run_raises [OF l sub xs, of rb operation_types after before]
    show "fst (execute_rollback rb file operation_types after before w)
             = Raised AttributeError"
      and "snd (snd (execute_rollback rb file operation_types after before w)) = w"
      and "attempted (fst (snd (execute_rollback rb file operation_types after before w)))
               = attempted rb"
      by simp_all
  }
next
  assume "read_file w file = Some (Json (JDict kvs))
      \<and> map_of kvs ''operations'' = Some operations \<and> py_len operations = None"
  then show "load_rollback_data w file = None"
    by (simp add: load_rollback_data_def subscript_def)
next
  assume h: "\<not> exists w file
       \<or> (\<exists>s. read_file w file = Some (Bytes s))
       \<or> (\<exists>v. read_file w file = Some (Json v)
            \<and> (\<nexists>kvs. v = JDict kvs \<and> map_of kvs ''timestamp'' \<noteq> None
                       \<and> map_of kvs ''operations'' \<noteq> None))"
  have bad: "(py_in ''timestamp'' v \<noteq> Some True \<or> py_in ''operations'' v \<noteq> Some True)
      \<or> isl (subscript v ''operations'')"
    if "\<nexists>kvs. v = JDict kvs \<and> map_of kvs ''timestamp'' \<noteq> None
               \<and> map_of kvs ''operations'' \<noteq> None" for v
  proof (cases v)
    case (JDict kvs)
    then have "map_of kvs ''timestamp'' = None \<or> map_of kvs ''operations'' = None"
      using that by simp
    then show ?thesis
      using JDict by (auto simp: py_in_def map_of_eq_None_iff)
  qed (simp_all add: subscript_def py_in_def)
  show "load_rollback_data w file = None"
    using h
  proof (elim disjE exE conjE)
    assume "\<not> exists w file"
    then show ?thesis by (simp add: load_rollback_data_def)
  next
    fix s assume "read_file w file = Some (Bytes s)"
    then show ?thesis by (simp add: load_rollback_data_def)
  next
    fix v
    assume r: "read_file w file = Some (Json v)"
      and n: "\<nexists>kvs. v = JDict kvs \<and> map_of kvs ''timestamp'' \<noteq> None
               \<and> map_of kvs ''operations'' \<noteq> None"
    from bad [OF n] show ?thesis
      using r by (auto simp: load_rollback_data_def split: sum.splits)
  qed
next
  assume "load_rollback_data w file = None"
  then show "execute_rollback rb file operation_types after before w = (Exit 1, rb, w)"
    by (simp add: execute_rollback_def)
qed

text \<open>
  The claim as stated fails on an object with both fields whose \<^verbatim>\<open>operations\<close> is a
  number: \<^verbatim>\<open>len\<close> raises inside the \<^verbatim>\<open>try\<close>, and loading fails.
\<close>

theorem loader_required_fields_counterexample:
  "load_rollback_data
      (ledger_world (JDict [(''timestamp'', JStr ''2025-08-09T09:30:00''),
                            (''operations'', JNum 5)]))
      ''/work/duplicate_rollback.json'' = None
   \<and> fst (execute_rollback (new_rollback False) ''/work/duplicate_rollback.json''
        None None None
        (ledger_world (JDict [(''timestamp'', JStr ''2025-08-09T09:30:00''),
                              (''operations'', JNum 5)]))) = Exit 1
   \<and> attempted (fst (snd (execute_rollback (new_rollback False)
        ''/work/duplicate_rollback.json'' None None None
        (ledger_world (JDict [(''timestamp'', JStr ''2025-08-09T09:30:00''),
                              (''operations'', JNum 5)]))))) = []"
  using numeric_operations_run by (simp add: case_prod_beta)

theorem loader_required_fields_witness:
  "load_rollback_data (ledger_world (ledger_of [old_delete])) ''/work/duplicate_rollback.json''
     = Some (ledger_of [old_delete])
   \<and> (\<exists>code rb' w'.
        execute_rollback (new_rollback False) ''/work/duplicate_rollback.json''
          None None None (ledger_world (ledger_of [old_delete])) = (Exit code, rb', w')
        \<and> (code = 0 \<or> code = 2)
        \<and> attempted rb' = [old_delete])
   \<and> load_rollback_data
       (ledger_world (JDict [(''timestamp'', JStr ''2025-08-09T09:30:00''),
                             (''operations'', JStr ''abc'')]))
       ''/work/duplicate_rollback.json''
     = Some (JDict [(''timestamp'', JStr ''2025-08-09T09:30:00''),
                    (''operations'', JStr ''abc'')])
   \<and> fst (execute_rollback (new_rollback False) ''/work/duplicate_rollback.json''
        None None None
        (ledger_world (JDict [(''timestamp'', JStr ''2025-08-09T09:30:00''),
                              (''operations'', JStr ''abc'')])))
     = Raised AttributeError
   \<and> attempted (fst (snd (execute_rollback (new_rollback False)
        ''/work/duplicate_rollback.json'' None None None
        (ledger_world (JDict [(''timestamp'', JStr ''2025-08-09T09:30:00''),
                              (''operations'', JStr ''abc'')]))))) = []
   \<and> py_len (JNum 5) = None
   \<and> load_rollback_data
       (ledger_world (JDict [(''timestamp'', JStr ''2025-08-09T09:30:00''),
                             (''operations'', JNum 5)]))
       ''/work/duplicate_rollback.json'' = None
   \<and> read_file sample_world ''/a/x.txt'' = Some (Bytes ''first'')
   \<and> load_rollback_data sample_world ''/a/x.txt'' = None
   \<and> execute_rollback (new_rollback False) ''/a/x.txt'' None None None sample_world
       = (Exit 1, new_rollback False, sample_world)"
proof -
  let ?file = "''/work/duplicate_rollback.json''"
  let ?w = "ledger_world (ledger_of [old_delete])"
  let ?kvs = "[(''timestamp'', JStr ''2025-08-09T09:30:00.000100''),
               (''operations'', JList [old_delete])]"
  have r: "read_file ?w ?file = Some (Json (JDict ?kvs))"
    by code_simp
  have o: "\<not> open_fails ?w ?file"
    by (simp add: ledger_world_def sample_world_def)
  have m: "map_of ?kvs ''timestamp'' = Some (JStr ''2025-08-09T09:30:00.000100'')"
    "map_of ?kvs ''operations'' = Some (JList [old_delete])"
    "py_len (JList [old_delete]) = Some 1"
    by (simp_all add: py_len_def)
  have rd: "list_all readable [old_delete]"
    by code_simp
  have sl: "filter (selected None None None) [old_delete] = [old_delete]"
    by (simp add: selected_def)
  have 1: "load_rollback_data ?w ?file = Some (JDict ?kvs)
      \<and> (\<exists>code rb' w'.
        execute_rollback (new_rollback False) ?file None None None ?w = (Exit code, rb', w')
        \<and> (code = 0 \<or> code = 2)
        \<and> attempted rb' = [old_delete])"
    using loader_required_fields [of ?w ?file ?kvs
        "JStr ''2025-08-09T09:30:00.000100''" "JList [old_delete]" 1 "[old_delete]"
        "new_rollback False" None None None "[]" "[]"] r o m rd sl
    by (simp add: new_rollback_def)
  let ?t = "[(''timestamp'', JStr ''2025-08-09T09:30:00''), (''operations'', JStr ''abc'')]"
  have rt: "read_file (ledger_world (JDict ?t)) ?file = Some (Json (JDict ?t))"
    by code_simp
  have ot: "\<not> open_fails (ledger_world (JDict ?t)) ?file"
    by (simp add: ledger_world_def sample_world_def)
  have mt: "map_of ?t ''timestamp'' = Some (JStr ''2025-08-09T09:30:00'')"
    "map_of ?t ''operations'' = Some (JStr ''abc'')"
    "py_len (JStr ''abc'') = Some 3"
    by (simp_all add: py_len_def)
  have 5: "load_rollback_data (ledger_world (JDict ?t)) ?file = Some (JDict ?t)
      \<and> fst (execute_rollback (new_rollback False) ?file None None None
            (ledger_world (JDict ?t))) = Raised AttributeError
      \<and> attempted (fst (snd (execute_rollback (new_rollback False) ?file None None None
            (ledger_world (JDict ?t))))) = []"
    using loader_required_fields [of "ledger_world (JDict ?t)" ?file ?t
        "JStr ''2025-08-09T09:30:00''" "JStr ''abc''" 3 "[]"
        "new_rollback False" None None None "''abc''" "[]"] rt ot mt
    by (simp add: new_rollback_def)
  have b: "read_file sample_world ''/a/x.txt'' = Some (Bytes ''first'')"
    by code_simp
  have 2: "load_rollback_data sample_world ''/a/x.txt'' = None"
    using loader_required_fields [of sample_world "''/a/x.txt''" ?kvs
        "JStr ''2025-08-09T09:30:00.000100''" "JList [old_delete]" 1 "[]"
        "new_rollback False" None None None "[]" "[]"] b
    by simp
  have 3: "execute_rollback (new_rollback False) ''/a/x.txt'' None None None sample_world
       = (Exit 1, new_rollback False, sample_world)"
    using loader_required_fields [of sample_world "''/a/x.txt''" ?kvs
        "JStr ''2025-08-09T09:30:00.000100''" "JList [old_delete]" 1 "[]"
        "new_rollback False" None None None "[]" "[]"] 2
    by simp
  let ?n = "[(''timestamp'', JStr ''2025-08-09T09:30:00''), (''operations'', JNum 5)]"
  have rn: "read_file (ledger_world (JDict ?n)) ?file = Some (Json (JDict ?n))"
    by code_simp
  have pn: "py_len (JNum 5) = None"
    by (simp add: py_len_def)
  have 4: "load_rollback_data (ledger_world (JDict ?n)) ?file = None"
    using loader_required_fields [of "ledger_world (JDict ?n)" ?file ?n
        "JStr ''2025-08-09T09:30:00''" "JNum 5" 0 "[]"
        "new_rollback False" None None None "[]" "[]"] rn pn
    by simp
  show ?thesis
    using 1 2 3 4 5 b pn by (simp add: ledger_of_def)
qed
lemma empty_after_bound_run:
  "select_operations (JList [JDict [(''operation_type'', JStr ''delete'')],
                             JDict [(''timestamp'', JStr [])]]) None (Some []) None
     = Inr [JDict [(''operation_type'', JStr ''delete'')], JDict [(''timestamp'', JStr [])]]
   \<and> (case execute_rollback (new_rollback True) ''/work/duplicate_rollback.json''
             None (Some []) None
             (ledger_world (ledger_of [JDict [(''operation_type'', JStr ''move'')]])) of
        (out, rb', w') \<Rightarrow> attempted rb' = [JDict [(''operation_type'', JStr ''move'')]])"
  by code_simp

lemma bounded_run:
  "load_rollback_data (ledger_world (ledger_of [old_delete, move_entry, JDict []]))
      ''/work/duplicate_rollback.json'' = Some (ledger_of [old_delete, move_entry, JDict []])
   \<and> list_all stamped [old_delete, move_entry, JDict []]
   \<and> filter (selected None (Some ''2025-08-09T09:30:00.000050'') None)
        [old_delete, move_entry, JDict []] = [move_entry]
   \<and> filter (selected None None (Some ''2025-08-09T09:30:00.000050''))
        [old_delete, move_entry, JDict []] = [JDict []]
   \<and> fst (execute_rollback (new_rollback True) ''/work/duplicate_rollback.json''
        None (Some ''2025-08-09T09:30:00.000050'') None
        (ledger_world (ledger_of [old_delete, move_entry, JDict []]))) = Exit 2
   \<and> fst (execute_rollback (new_rollback True) ''/work/duplicate_rollback.json''
        None None (Some ''2025-08-09T09:30:00.000050'')
        (ledger_world (ledger_of [old_delete, move_entry, JDict []]))) = Exit 2"
  by code_simp

text \<open>
  C9, as amended. Over a ledger whose entries are objects with the timestamp absent or a
  string, the run selects the entries that pass every filter given, and a run that
  completes has attempted exactly those, last to first. A timestamp filter is applied only
  when its bound is not empty: an absent or empty bound keeps every entry. Applied with
  bound \<open>b\<close>, \<^verbatim>\<open>--after\<close> keeps the entries whose timestamp is strictly greater than \<open>b\<close>
  and \<^verbatim>\<open>--before\<close> those strictly smaller, an absent timestamp counting as the empty
  string: an entry whose timestamp equals the bound is attempted under neither, and an
  entry with no timestamp is never attempted under \<^verbatim>\<open>--after\<close> and, no other filter
  being given, always under \<^verbatim>\<open>--before\<close>.
\<close>

theorem timestamp_filters_strict:
  assumes "list_all stamped ops"
    and "load_rollback_data w file = Some data"
    and "subscript data ''operations'' = Inr (JList ops)"
    and "execute_rollback (new_rollback dry) file operation_types after before w
           = (Exit code, rb', w')"
  shows "select_operations (JList ops) operation_types after before
           = Inr (filter (selected operation_types after before) ops)
       \<and> attempted rb' = rev (filter (selected operation_types after before) ops)
       \<and> (after = Some b \<and> b \<noteq> [] \<longrightarrow>
            (\<forall>operation \<in> set (attempted rb'). b < timestamp_of operation))
       \<and> (before = Some b \<and> b \<noteq> [] \<longrightarrow>
            (\<forall>operation \<in> set (attempted rb'). timestamp_of operation < b))
       \<and> (operation_types = None \<and> after = Some b \<and> b \<noteq> [] \<and> before = None \<longrightarrow>
            attempted rb' = rev (filter (\<lambda>operation. b < timestamp_of operation) ops))
       \<and> (operation_types = None \<and> after = None \<and> before = Some b \<and> b \<noteq> [] \<longrightarrow>
            attempted rb' = rev (filter (\<lambda>operation. timestamp_of operation < b) ops))
       \<and> ((after = Some b \<or> before = Some b) \<and> b \<noteq> []
            \<and> map_of kvs ''timestamp'' = Some (JStr b) \<longrightarrow>
            JDict kvs \<notin> set (attempted rb'))
       \<and> (after = Some b \<and> b \<noteq> [] \<and> map_of kvs ''timestamp'' = None \<longrightarrow>
            JDict kvs \<notin> set (attempted rb'))
       \<and> (operation_types = None \<and> after = None \<and> before = Some b \<and> b \<noteq> []
            \<and> JDict kvs \<in> set ops \<and> map_of kvs ''timestamp'' = None \<longrightarrow>
            JDict kvs \<in> set (attempted rb'))
       \<and> (operation_types = None \<and> (after = None \<or> after = Some [])
            \<and> (before = None \<or> before = Some []) \<longrightarrow>
            attempted rb' = rev ops)"
proof -
  let ?sel = "filter (selected operation_types after before) ops"
  have s: "select_operations (JList ops) operation_types after before = Inr ?sel"
    using select_operations_stamped [OF assms(1)] .
  have a: "attempted rb' = rev ?sel"
    using completed_run_reversed [OF assms(4,2,3) s] by (simp add: new_rollback_def)
  have m: "set (attempted rb') = {operation \<in> set ops. selected operation_types after before operation}"
    using a by auto
  have same: "timestamp_of (JDict kvs) = b" if "map_of kvs ''timestamp'' = Some (JStr b)"
    using that by (simp add: timestamp_of_def dict_get_def)
  have absent: "timestamp_of (JDict kvs) = []" if "map_of kvs ''timestamp'' = None"
    using that by (simp add: timestamp_of_def dict_get_def)
  have empty: "[] < b" if "b \<noteq> []"
    using that by (cases b) simp_all
  have 3: "after = Some b \<and> b \<noteq> [] \<longrightarrow>
            (\<forall>operation \<in> set (attempted rb'). b < timestamp_of operation)"
    using m by (auto simp: selected_def)
  have 4: "before = Some b \<and> b \<noteq> [] \<longrightarrow>
            (\<forall>operation \<in> set (attempted rb'). timestamp_of operation < b)"
    using m by (auto simp: selected_def)
  have 5: "operation_types = None \<and> after = Some b \<and> b \<noteq> [] \<and> before = None \<longrightarrow>
            attempted rb' = rev (filter (\<lambda>operation. b < timestamp_of operation) ops)"
    using a by (auto simp: selected_def intro: filter_cong)
  have 6: "operation_types = None \<and> after = None \<and> before = Some b \<and> b \<noteq> [] \<longrightarrow>
            attempted rb' = rev (filter (\<lambda>operation. timestamp_of operation < b) ops)"
    using a by (auto simp: selected_def intro: filter_cong)
  have 7: "(after = Some b \<or> before = Some b) \<and> b \<noteq> []
            \<and> map_of kvs ''timestamp'' = Some (JStr b) \<longrightarrow>
            JDict kvs \<notin> set (attempted rb')"
    using 3 4 same by fastforce
  have 8: "after = Some b \<and> b \<noteq> [] \<and> map_of kvs ''timestamp'' = None \<longrightarrow>
            JDict kvs \<notin> set (attempted rb')"
    using 3 absent by fastforce
  have 9: "operation_types = None \<and> after = None \<and> before = Some b \<and> b \<noteq> []
            \<and> JDict kvs \<in> set ops \<and> map_of kvs ''timestamp'' = None \<longrightarrow>
            JDict kvs \<in> set (attempted rb')"
    using m absent empty by (auto simp: selected_def)
  have 10: "operation_types = None \<and> (after = None \<or> after = Some [])
            \<and> (before = None \<or> before = Some []) \<longrightarrow>
            attempted rb' = rev ops"
    using a by (auto simp: selected_def)
  show ?thesis
    using s a 3 4 5 6 7 8 9 10 by blast
qed

text \<open>
  The claim as stated fails for an empty bound: \<^verbatim>\<open>--after ''\<close> is not applied at all, and
  keeps an entry with no timestamp as well as one whose timestamp equals the bound.
\<close>

theorem timestamp_filters_strict_counterexample:
  "select_operations (JList [JDict [(''operation_type'', JStr ''delete'')],
                             JDict [(''timestamp'', JStr [])]]) None (Some []) None
     = Inr [JDict [(''operation_type'', JStr ''delete'')], JDict [(''timestamp'', JStr [])]]
   \<and> attempted (fst (snd (execute_rollback (new_rollback True)
        ''/work/duplicate_rollback.json'' None (Some []) None
        (ledger_world (ledger_of [JDict [(''operation_type'', JStr ''move'')]])))))
     = [JDict [(''operation_type'', JStr ''move'')]]"
  using empty_after_bound_run by (simp add: case_prod_beta)

theorem timestamp_filters_strict_witness:
  "select_operations (JList [old_delete, move_entry, JDict []])
      None (Some ''2025-08-09T09:30:00.000050'') None = Inr [move_entry]
   \<and> attempted (fst (snd (execute_rollback (new_rollback True)
        ''/work/duplicate_rollback.json'' None (Some ''2025-08-09T09:30:00.000050'') None
        (ledger_world (ledger_of [old_delete, move_entry, JDict []])))))
     = [move_entry]
   \<and> select_operations (JList [old_delete, move_entry, JDict []])
      None None (Some ''2025-08-09T09:30:00.000050'') = Inr [JDict []]
   \<and> attempted (fst (snd (execute_rollback (new_rollback True)
        ''/work/duplicate_rollback.json'' None None (Some ''2025-08-09T09:30:00.000050'')
        (ledger_world (ledger_of [old_delete, move_entry, JDict []])))))
     = [JDict []]"
proof -
  let ?b = "''2025-08-09T09:30:00.000050''"
  let ?ops = "[old_delete, move_entry, JDict []]"
  let ?file = "''/work/duplicate_rollback.json''"
  let ?w = "ledger_world (ledger_of ?ops)"
  let ?after = "execute_rollback (new_rollback True) ?file None (Some ?b) None ?w"
  let ?before = "execute_rollback (new_rollback True) ?file None None (Some ?b) ?w"
  note run = bounded_run
  have st: "list_all stamped ?ops"
    using run by blast
  have l: "load_rollback_data ?w ?file = Some (ledger_of ?ops)"
    using run by blast
  have sub: "subscript (ledger_of ?ops) ''operations'' = Inr (JList ?ops)"
    by (simp add: ledger_of_def subscript_def)
  have ea: "?after = (Exit 2, fst (snd ?after), snd (snd ?after))"
    using run by (simp add: prod_eq_iff)
  have eb: "?before = (Exit 2, fst (snd ?before), snd (snd ?before))"
    using run by (simp add: prod_eq_iff)
  have fa: "filter (selected None (Some ?b) None) ?ops = [move_entry]"
    using run by blast
  have fb: "filter (selected None None (Some ?b)) ?ops = [JDict []]"
    using run by blast
  have 1: "select_operations (JList ?ops) None (Some ?b) None = Inr [move_entry]
      \<and> attempted (fst (snd ?after)) = [move_entry]"
    using timestamp_filters_strict [OF st l sub ea, of ?b "[]"] fa by simp
  have 2: "select_operations (JList ?ops) None None (Some ?b) = Inr [JDict []]
      \<and> attempted (fst (snd ?before)) = [JDict []]"
    using timestamp_filters_strict [OF st l sub eb, of ?b "[]"] fb by simp
  show ?thesis
    using 1 2 by simp
qed
lemma torn_entry_run:
  "load_rollback_data (ledger_world (ledger_of [old_delete, torn_delete]))
      ''/work/duplicate_rollback.json'' = Some (ledger_of [old_delete, torn_delete])
   \<and> (case execute_rollback (new_rollback False) ''/work/duplicate_rollback.json''
             None None None (ledger_world (ledger_of [old_delete, torn_delete])) of
        (out, rb', w') \<Rightarrow>
          out = Raised KeyError
          \<and> attempted rb' = [torn_delete]
          \<and> fs w' ''/a/old.txt'' = None)
   \<and> (case execute_rollback (new_rollback False) ''/work/duplicate_rollback.json''
             None None None (ledger_world (ledger_of [old_delete])) of
        (out, rb', w') \<Rightarrow>
          out = Exit 0
          \<and> attempted rb' = [old_delete]
          \<and> fs w' ''/a/old.txt'' = Some (File (Bytes ''old'')))"
  by code_simp

text \<open>
  C4. A ledger entry of type \<^verbatim>\<open>delete\<close> that lacks \<^verbatim>\<open>backup_path\<close> ends the whole run: the
  lookup \<^verbatim>\<open>operation['backup_path']\<close> stands before the \<^verbatim>\<open>try\<close> of
  \<^verbatim>\<open>rollback_delete_operation\<close>, so the \<^verbatim>\<open>KeyError\<close> is caught nowhere. The entry before it
  in the ledger, which would be reversed next, is never attempted, and its file is not
  restored; reversed alone, that entry succeeds.
\<close>

theorem failure_stops_remaining_entries:
  "load_rollback_data (ledger_world (ledger_of [old_delete, torn_delete]))
      ''/work/duplicate_rollback.json'' = Some (ledger_of [old_delete, torn_delete])
   \<and> fst (execute_rollback (new_rollback False) ''/work/duplicate_rollback.json''
        None None None (ledger_world (ledger_of [old_delete, torn_delete])))
     = Raised KeyError
   \<and> attempted (fst (snd (execute_rollback (new_rollback False)
        ''/work/duplicate_rollback.json'' None None None
        (ledger_world (ledger_of [old_delete, torn_delete])))))
     = [torn_delete]
   \<and> fs (snd (snd (execute_rollback (new_rollback False)
        ''/work/duplicate_rollback.json'' None None None
        (ledger_world (ledger_of [old_delete, torn_delete]))))) ''/a/old.txt''
     = None
   \<and> fst (execute_rollback (new_rollback False) ''/work/duplicate_rollback.json''
        None None None (ledger_world (ledger_of [old_delete])))
     = Exit 0
   \<and> fs (snd (snd (execute_rollback (new_rollback False)
        ''/work/duplicate_rollback.json'' None None None
        (ledger_world (ledger_of [old_delete]))))) ''/a/old.txt''
     = Some (File (Bytes ''old''))"
  using torn_entry_run by (simp add: case_prod_beta)

lemma filtered_move_entry_run:
  "unrecognized move_entry
   \<and> load_rollback_data (ledger_world (ledger_of [old_delete, move_entry]))
       ''/work/duplicate_rollback.json'' = Some (ledger_of [old_delete, move_entry])
   \<and> (case execute_rollback (new_rollback False) ''/work/duplicate_rollback.json''
             (Some [''delete'']) None None
             (ledger_world (ledger_of [old_delete, move_entry])) of
        (out, rb', w') \<Rightarrow>
          out = Exit 0
          \<and> skipped_operations (rb_stats rb') = 0
          \<and> failed_rollbacks (rb_stats rb') = 0)"
  by code_simp

text \<open>
  C10, as amended. After every completed run that started from a fresh object,
  \<open>successful_rollbacks + failed_rollbacks = total_operations\<close>, the number of entries
  left after filtering. Every entry of unrecognized type among those left after filtering
  is counted in \<open>skipped_operations\<close> and in \<open>failed_rollbacks\<close>, so one such entry is
  enough for exit code 2. An entry the filters drop is counted nowhere.
\<close>

theorem rollback_counts:
  assumes "execute_rollback (new_rollback dry) file operation_types after before w
             = (Exit code, rb', w')"
  shows "successful_rollbacks (rb_stats rb') + failed_rollbacks (rb_stats rb')
           = total_operations (rb_stats rb')
       \<and> (load_rollback_data w file = Some data
            \<and> subscript data ''operations'' = Inr operations
            \<and> select_operations operations operation_types after before = Inr ops \<longrightarrow>
          total_operations (rb_stats rb') = length ops
          \<and> skipped_operations (rb_stats rb') = length (filter unrecognized ops)
          \<and> skipped_operations (rb_stats rb') \<le> failed_rollbacks (rb_stats rb')
          \<and> (list_ex unrecognized ops \<longrightarrow> code = 2))"
proof (cases "load_rollback_data w file")
  case None
  then show ?thesis
    using assms by (auto simp: execute_rollback_def new_rollback_def)
next
  case (Some d)
  show ?thesis
  proof (cases "truthy d")
    case False
    then have "rb' = new_rollback dry"
      using assms Some by (simp add: execute_rollback_def)
    moreover have "subscript d ''operations'' = Inr operations \<longrightarrow>
        select_operations operations operation_types after before \<noteq> Inr ops" for operations ops
      using False by (cases d) (auto simp: truthy_def subscript_def)
    ultimately show ?thesis
      using Some by (auto simp: new_rollback_def)
  next
    case True
    from assms Some True obtain opsv where s: "subscript d ''operations'' = Inr opsv"
      by (cases "subscript d ''operations''") (auto simp: execute_rollback_def)
    from assms Some True s obtain sel where
      sel: "select_operations opsv operation_types after before = Inr sel"
      by (cases "select_operations opsv operation_types after before")
        (auto simp: execute_rollback_def)
    let ?rb = "(new_rollback dry)\<lparr>rb_stats := (rb_stats (new_rollback dry))
        \<lparr>total_operations := length sel\<rparr>\<rparr>"
    have main: "successful_rollbacks (rb_stats rb') + failed_rollbacks (rb_stats rb')
           = total_operations (rb_stats rb')
        \<and> total_operations (rb_stats rb') = length sel
        \<and> skipped_operations (rb_stats rb') = length (filter unrecognized sel)
        \<and> skipped_operations (rb_stats rb') \<le> failed_rollbacks (rb_stats rb')
        \<and> (list_ex unrecognized sel \<longrightarrow> code = 2)"
    proof (cases "sel = []")
      case e: True
      then have "rb' = new_rollback dry"
        using assms Some True s sel by (simp add: execute_rollback_def)
      then show ?thesis
        using e by (simp add: new_rollback_def)
    next
      case ne: False
      obtain r rb1 w1 where l: "rollback_loop (rev sel) ?rb w = (r, rb1, w1)"
        using prod_cases3 by blast
      have fin: "r = None \<and> rb1 = rb'
          \<and> code = (if failed_rollbacks (rb_stats rb1) = 0 then 0 else 2)"
        using assms Some True s sel ne l by (cases r) (auto simp: execute_rollback_def)
      then have "rollback_loop (rev sel) ?rb w = (None, rb', w1)"
        using l by simp
      from rollback_loop_completed [OF this]
      have c: "total_operations (rb_stats rb') = length sel"
        "successful_rollbacks (rb_stats rb') + failed_rollbacks (rb_stats rb') = length sel"
        "skipped_operations (rb_stats rb') = length (filter unrecognized (rev sel))"
        "length (filter unrecognized (rev sel)) \<le> failed_rollbacks (rb_stats rb')"
        by (simp_all add: new_rollback_def)
      have len: "length (filter unrecognized (rev sel)) = length (filter unrecognized sel)"
        by (simp flip: rev_filter)
      have pos: "0 < length (filter unrecognized sel)" if "list_ex unrecognized sel"
        using that by (auto simp: list_ex_iff filter_empty_conv)
      have "0 < failed_rollbacks (rb_stats rb')" if "list_ex unrecognized sel"
        using pos [OF that] c(4) len by linarith
      then have "code = 2" if "list_ex unrecognized sel"
        using that fin by simp
      then show ?thesis
        using c len by simp
    qed
    show ?thesis
      using main Some s sel by auto
  qed
qed

text \<open>
  The claim as stated fails when the filters drop the entry: with
  \<^verbatim>\<open>--operation-type delete\<close> the entry of type \<^verbatim>\<open>move\<close> is in the ledger, is counted
  nowhere, and the run exits with code 0.
\<close>

theorem rollback_counts_counterexample:
  "unrecognized move_entry
   \<and> load_rollback_data (ledger_world (ledger_of [old_delete, move_entry]))
       ''/work/duplicate_rollback.json'' = Some (ledger_of [old_delete, move_entry])
   \<and> fst (execute_rollback (new_rollback False) ''/work/duplicate_rollback.json''
        (Some [''delete'']) None None (ledger_world (ledger_of [old_delete, move_entry])))
     = Exit 0
   \<and> skipped_operations (rb_stats (fst (snd (execute_rollback (new_rollback False)
        ''/work/duplicate_rollback.json'' (Some [''delete'']) None None
        (ledger_world (ledger_of [old_delete, move_entry])))))) = 0
   \<and> failed_rollbacks (rb_stats (fst (snd (execute_rollback (new_rollback False)
        ''/work/duplicate_rollback.json'' (Some [''delete'']) None None
        (ledger_world (ledger_of [old_delete, move_entry])))))) = 0"
  using filtered_move_entry_run by (simp add: case_prod_beta)

theorem rollback_counts_witness:
  "unrecognized move_entry
   \<and> fst (execute_rollback (new_rollback False) ''/work/duplicate_rollback.json''
        None None None (ledger_world (ledger_of [old_delete, move_entry]))) = Exit 2
   \<and> total_operations (rb_stats (fst (snd (execute_rollback (new_rollback False)
        ''/work/duplicate_rollback.json'' None None None
        (ledger_world (ledger_of [old_delete, move_entry])))))) = 2
   \<and> skipped_operations (rb_stats (fst (snd (execute_rollback (new_rollback False)
        ''/work/duplicate_rollback.json'' None None None
        (ledger_world (ledger_of [old_delete, move_entry])))))) = 1
   \<and> 1 \<le> failed_rollbacks (rb_stats (fst (snd (execute_rollback (new_rollback False)
        ''/work/duplicate_rollback.json'' None None None
        (ledger_world (ledger_of [old_delete, move_entry]))))))"
proof -
  let ?w = "ledger_world (ledger_of [old_delete, move_entry])"
  let ?f = "''/work/duplicate_rollback.json''"
  obtain out rb' w' where
    r: "execute_rollback (new_rollback False) ?f None None None ?w = (out, rb', w')"
    using prod_cases3 by blast
  have "fst (execute_rollback (new_rollback False) ?f None None None ?w) = Exit 2"
    by code_simp
  then have out: "out = Exit 2"
    using r by simp
  have l: "load_rollback_data ?w ?f = Some (ledger_of [old_delete, move_entry])"
    by code_simp
  have s: "subscript (ledger_of [old_delete, move_entry]) ''operations''
      = Inr (JList [old_delete, move_entry])"
    by (simp add: subscript_def ledger_of_def)
  have sel: "select_operations (JList [old_delete, move_entry]) None None None
      = Inr [old_delete, move_entry]"
    by (simp add: select_operations_def py_iter_def by_type_def by_after_def by_before_def)
  have u: "unrecognized move_entry" "\<not> unrecognized old_delete"
    by code_simp+
  have "successful_rollbacks (rb_stats rb') + failed_rollbacks (rb_stats rb')
           = total_operations (rb_stats rb')
      \<and> total_operations (rb_stats rb') = 2
      \<and> skipped_operations (rb_stats rb') = 1
      \<and> 1 \<le> failed_rollbacks (rb_stats rb')"
    using rollback_counts [of False ?f None None None ?w 2 rb' w'
        "ledger_of [old_delete, move_entry]" "JList [old_delete, move_entry]"
        "[old_delete, move_entry]"] r out l s sel u
    by simp
  then show ?thesis
    using r out u by simp
qed

end
